theory Spec2Isabelle
  imports Main "HOL-Library.AList"
begin

section \<open>The Chromium protocol connection (src/chromium/crConnection.ts)\<close>

text \<open>
  One \<open>CRConnection\<close> multiplexes many \<open>CRSession\<close> objects over one transport.
  The embedding keeps the objects of the source in an explicit store: sessions live in
  a heap and are named by their index, because a session stays reachable for its callers
  after the connection has dropped it from its registry. JavaScript numbers that carry
  request ids are integers, incremented as a double is (\<open>increment\<close>), \<open>undefined\<close> is
  \<open>None\<close>, a \<open>Map\<close> is an association list in insertion order
  (\<open>AList.update\<close> overwrites in place or appends, as \<open>Map.set\<close> does), and a
  thrown exception is a value returned beside the state that the call left behind.

  Modelled are the constructor, \<open>session\<close>, \<open>_rawSend\<close>, \<open>_onMessage\<close>,
  \<open>_onClose\<close> and \<open>close\<close> of the connection and \<open>_markAsCrashed\<close>, \<open>send\<close>,
  \<open>_onMessage\<close> and \<open>_onClosed\<close> of the session. \<open>createSession\<close>,
  \<open>createBrowserSession\<close>, \<open>detach\<close> and \<open>_sendMayFail\<close> are callers of \<open>send\<close>
  that await its promise; they add no state of their own.
\<close>

subsection \<open>Values\<close>

text \<open>Payloads the code only passes along (command parameters, results, the rest of an
  event's parameters) are carried as their JSON text.\<close>

type_synonym json = string

text \<open>An \<open>Error\<close> object: its message and the call stack captured where it was made.\<close>

record js_error =
  err_message :: string
  err_stack :: string

datatype thrown = Error js_error | TypeError | AssertionError

text \<open>\<open>ProtocolRequest\<close>: \<open>{id, method, params, sessionId?}\<close>.\<close>

record ProtocolRequest =
  req_id :: int
  req_method :: string
  req_params :: "json option"
  req_sessionId :: "string option"

text \<open>The fields of \<open>message.params\<close> that the connection reads
  (\<open>params.sessionId\<close>, \<open>params.targetInfo.type\<close>); the rest is opaque.\<close>

record target_info =
  ti_type :: string

record params =
  params_sessionId :: "string option"
  params_targetInfo :: "target_info option"
  params_rest :: json

text \<open>\<open>error: {message, data}\<close>. The code reads \<open>data\<close> only through a template
  literal, so the field holds the string that conversion yields; \<open>None\<close> is a reply
  without the key (\<open>'data' in protocolError\<close> is false).\<close>

record protocol_error =
  pe_message :: string
  pe_data :: "string option"

text \<open>\<open>ProtocolResponse\<close>: \<open>{id?, method?, sessionId?, error?, params?, result?}\<close>.\<close>

record ProtocolResponse =
  resp_id :: "int option"
  resp_method :: "string option"
  resp_sessionId :: "string option"
  resp_error :: "protocol_error option"
  resp_params :: "params option"
  resp_result :: "json option"

text \<open>Truthiness of an optional number and of an optional string, and
  \<open>message.sessionId || ''\<close>.\<close>

fun truthy_number :: "int option \<Rightarrow> bool" where
  "truthy_number None = False"
| "truthy_number (Some i) = (i \<noteq> 0)"

fun truthy_string :: "string option \<Rightarrow> bool" where
  "truthy_string None = False"
| "truthy_string (Some s) = (s \<noteq> [])"

fun or_empty :: "string option \<Rightarrow> string" where
  "or_empty None = []"
| "or_empty (Some s) = s"

text \<open>\<open>++n\<close> on the number that holds the request counter. A JavaScript number is an
  IEEE double: every integer up to \<open>2^53\<close> is a double and the sum is exact below it;
  \<open>2^53 + 1\<close> is no double and rounds back to \<open>2^53\<close>, so there the counter stays.
  The counter starts at 0 and changes nowhere else, so it never leaves \<open>0..2^53\<close>
  (\<open>sent_ok\<close> below).\<close>

definition increment :: "int \<Rightarrow> int" where
  "increment n = (if n < 2 ^ 53 then n + 1 else n)"

definition kBrowserCloseMessageId :: int where
  "kBrowserCloseMessageId = - 9999"

subsection \<open>Objects and the store\<close>

text \<open>A pending call: the promise whose \<open>resolve\<close>/\<open>reject\<close> the entry holds, the
  \<open>Error\<close> made at the call site, and the method.\<close>

record callback =
  cb_promise :: nat
  cb_error :: js_error
  cb_method :: string

datatype conn_ref = TheConnection

record CRSession =
  connection :: "conn_ref option"
  callbacks :: "(int \<times> callback) list"
  targetType :: string
  sessionId :: "string option"
  rootSessionId :: string
  crashed :: bool

text \<open>The transport collaborator is outside the source file. It is modelled by what the
  connection does to it: the requests handed to \<open>send\<close>, whether the two hooks are
  installed, and how often \<open>close()\<close> was called. The transport reports closure later,
  through the \<open>onclose\<close> hook.\<close>

record transport =
  sent :: "ProtocolRequest list"
  onmessage :: bool
  onclose :: bool
  closeCalls :: nat

text \<open>The logger collaborator: whether the protocol log is enabled, and the lines it
  was given. A line is kept as the message it renders (\<open>SEND\<close> a request,
  \<open>RECV\<close> a frame), not as the text made of it.\<close>

datatype log_line = SEND ProtocolRequest | RECV ProtocolResponse

record logger =
  isLogEnabled :: bool
  logged :: "log_line list"

text \<open>Calls of a promise's \<open>resolve\<close> and \<open>reject\<close>, and the microtasks queued with
  \<open>Promise.resolve().then(...)\<close>, in the order the code makes them.\<close>

datatype settlement = Resolve nat "json option" | Reject nat js_error

datatype task =
    EmitEvent nat "string option" "params option"
  | EmitSessionDisconnected nat
  | EmitConnectionDisconnected

record CRConnection =
  lastId :: int
  transport :: transport
  sessions :: "(string option \<times> nat) list"
  rootSession :: nat
  closed :: bool
  logger :: logger

record world = CRConnection +
  heap :: "CRSession list"
  promises :: nat
  settled :: "settlement list"
  microtasks :: "task list"

text \<open>The state of the program: the connection, the session objects (a reference is an
  index into \<open>heap\<close>; a new object is appended, none is ever removed), the number of
  promises made by \<open>send\<close>, the settlements and the queued microtasks. A reference
  outside the heap names no object, and a call through it is the \<open>TypeError\<close> of a call
  on \<open>undefined\<close>; the registry never holds one (\<open>registry_ok\<close> below).\<close>

definition deref :: "world \<Rightarrow> nat \<Rightarrow> CRSession option" where
  "deref w r = (if r < length (heap w) then Some (heap w ! r) else None)"

definition log :: "log_line \<Rightarrow> world \<Rightarrow> world" where
  "log l w =
     (if isLogEnabled (logger w)
      then w\<lparr>logger := (logger w)\<lparr>logged := logged (logger w) @ [l]\<rparr>\<rparr>
      else w)"

subsection \<open>Helpers imported by the source file\<close>

text \<open>Modelled from the spec: \<open>rewriteErrorMessage\<close> of \<open>debug/stackTrace\<close> is not
  in the source file. The spec's diagnostic-enrichment collaborator returns an error
  whose message is replaced and whose call-site context is kept.\<close>

definition rewriteErrorMessage :: "js_error \<Rightarrow> string \<Rightarrow> js_error" where
  "rewriteErrorMessage e m = e\<lparr>err_message := m\<rparr>"

text \<open>Modelled from the spec: \<open>assert\<close> of \<open>helper\<close> is not in the source file. The
  spec calls it an assertion that fails loudly: it throws when its argument is false.\<close>

definition assert :: "bool \<Rightarrow> thrown option" where
  "assert v = (if v then None else Some AssertionError)"

definition createProtocolError :: "js_error \<Rightarrow> string \<Rightarrow> protocol_error \<Rightarrow> js_error" where
  "createProtocolError error method protocolError =
     (let message = ''Protocol error ('' @ method @ ''): '' @ pe_message protocolError;
          message = (case pe_data protocolError of
                       Some d \<Rightarrow> message @ '' '' @ d
                     | None \<Rightarrow> message)
      in rewriteErrorMessage error message)"

subsection \<open>CRSession\<close>

definition CRSession_new :: "string \<Rightarrow> string \<Rightarrow> string option \<Rightarrow> CRSession" where
  "CRSession_new rootSessionId' targetType' sessionId' =
     \<lparr>connection = Some TheConnection, callbacks = [], targetType = targetType',
      sessionId = sessionId', rootSessionId = rootSessionId', crashed = False\<rparr>"

definition CRSession_markAsCrashed :: "world \<Rightarrow> nat \<Rightarrow> world" where
  "CRSession_markAsCrashed w r =
     (case deref w r of
        None \<Rightarrow> w
      | Some s \<Rightarrow> w\<lparr>heap := (heap w)[r := s\<lparr>crashed := True\<rparr>]\<rparr>)"

text \<open>\<open>object.id && this._callbacks.has(object.id)\<close>, together with the \<open>get\<close> that
  follows it.\<close>

definition pending_call :: "CRSession \<Rightarrow> int option \<Rightarrow> (int \<times> callback) option" where
  "pending_call s i =
     (case i of
        None \<Rightarrow> None
      | Some n \<Rightarrow>
          if truthy_number i then map_option (Pair n) (map_of (callbacks s) n) else None)"

definition CRSession_onMessage :: "world \<Rightarrow> nat \<Rightarrow> ProtocolResponse \<Rightarrow> thrown option \<times> world" where
  "CRSession_onMessage w r object =
     (case deref w r of
        None \<Rightarrow> (Some TypeError, w)
      | Some s \<Rightarrow>
          (case pending_call s (resp_id object) of
             Some (i, callback) \<Rightarrow>
               (let s' = s\<lparr>callbacks := AList.delete i (callbacks s)\<rparr>;
                    w' = w\<lparr>heap := (heap w)[r := s']\<rparr>
                in (case resp_error object of
                      Some e \<Rightarrow>
                        (None, w'\<lparr>settled := settled w' @
                           [Reject (cb_promise callback)
                              (createProtocolError (cb_error callback) (cb_method callback) e)]\<rparr>)
                    | None \<Rightarrow>
                        (None, w'\<lparr>settled := settled w' @
                           [Resolve (cb_promise callback) (resp_result object)]\<rparr>)))
           | None \<Rightarrow>
               (case assert (\<not> truthy_number (resp_id object)) of
                  Some ex \<Rightarrow> (Some ex, w)
                | None \<Rightarrow>
                    (None, w\<lparr>microtasks := microtasks w @
                       [EmitEvent r (resp_method object) (resp_params object)]\<rparr>))))"

definition closed_error :: "callback \<Rightarrow> js_error" where
  "closed_error callback =
     rewriteErrorMessage (cb_error callback)
       (''Protocol error ('' @ cb_method callback @ ''): Target closed.'')"

definition CRSession_onClosed :: "world \<Rightarrow> nat \<Rightarrow> world" where
  "CRSession_onClosed w r =
     (case deref w r of
        None \<Rightarrow> w
      | Some s \<Rightarrow>
          w\<lparr>settled := settled w @
               map (\<lambda>callback. Reject (cb_promise callback) (closed_error callback))
                 (map snd (callbacks s)),
            heap := (heap w)[r := s\<lparr>callbacks := [], connection := None\<rparr>],
            microtasks := microtasks w @ [EmitSessionDisconnected r]\<rparr>)"

subsection \<open>CRConnection\<close>

definition CRConnection_new :: "transport \<Rightarrow> logger \<Rightarrow> world" where
  "CRConnection_new t lg =
     \<lparr>lastId = 0,
      transport = t\<lparr>onmessage := True, onclose := True\<rparr>,
      sessions = [(Some [], 0)],
      rootSession = 0,
      closed = False,
      logger = lg,
      heap = [CRSession_new [] ''browser'' (Some [])],
      promises = 0,
      settled = [],
      microtasks = []\<rparr>"

definition session :: "world \<Rightarrow> string \<Rightarrow> nat option" where
  "session w sessionId' = map_of (sessions w) (Some sessionId')"

definition CRConnection_rawSend :: "world \<Rightarrow> string option \<Rightarrow> string \<Rightarrow> json option \<Rightarrow> int \<times> world" where
  "CRConnection_rawSend w sessionId' method params' =
     (let id' = increment (lastId w);
          w1 = w\<lparr>lastId := id'\<rparr>;
          message = \<lparr>req_id = id', req_method = method, req_params = params',
                     req_sessionId = (if truthy_string sessionId' then sessionId' else None)\<rparr>;
          w2 = log (SEND message) w1;
          w3 = w2\<lparr>transport := (transport w2)\<lparr>sent := sent (transport w2) @ [message]\<rparr>\<rparr>
      in (id', w3))"

text \<open>The two lifecycle branches of \<open>_onMessage\<close>. Reading a property of
  \<open>message.params\<close> or of \<open>params.targetInfo\<close> when it is \<open>undefined\<close> throws.\<close>

definition lifecycle :: "world \<Rightarrow> ProtocolResponse \<Rightarrow> thrown + world" where
  "lifecycle w message =
     (if resp_method message = Some ''Target.attachedToTarget'' then
        (case resp_params message of
           None \<Rightarrow> Inl TypeError
         | Some p \<Rightarrow>
             (let sessionId' = params_sessionId p;
                  rootSessionId' = or_empty (resp_sessionId message)
              in (case params_targetInfo p of
                    None \<Rightarrow> Inl TypeError
                  | Some ti \<Rightarrow>
                      Inr (w\<lparr>heap := heap w @ [CRSession_new rootSessionId' (ti_type ti) sessionId'],
                             sessions := AList.update sessionId' (length (heap w)) (sessions w)\<rparr>))))
      else if resp_method message = Some ''Target.detachedFromTarget'' then
        (case resp_params message of
           None \<Rightarrow> Inl TypeError
         | Some p \<Rightarrow>
             (case map_of (sessions w) (params_sessionId p) of
                None \<Rightarrow> Inr w
              | Some r \<Rightarrow>
                  (let w' = CRSession_onClosed w r
                   in Inr (w'\<lparr>sessions := AList.delete (params_sessionId p) (sessions w')\<rparr>))))
      else Inr w)"

definition CRConnection_onMessage :: "world \<Rightarrow> ProtocolResponse \<Rightarrow> thrown option \<times> world" where
  "CRConnection_onMessage w message =
     (let w0 = log (RECV message) w
      in if resp_id message = Some kBrowserCloseMessageId then (None, w0)
         else
           (case lifecycle w0 message of
              Inl ex \<Rightarrow> (Some ex, w0)
            | Inr w1 \<Rightarrow>
                (case map_of (sessions w1) (Some (or_empty (resp_sessionId message))) of
                   None \<Rightarrow> (None, w1)
                 | Some r \<Rightarrow> CRSession_onMessage w1 r message)))"

definition CRConnection_onClose :: "world \<Rightarrow> world" where
  "CRConnection_onClose w =
     (let w1 = w\<lparr>closed := True,
                 transport := (transport w)\<lparr>onmessage := False, onclose := False\<rparr>\<rparr>;
          w2 = foldl CRSession_onClosed w1 (map snd (sessions w1))
      in w2\<lparr>sessions := [],
            microtasks := microtasks w2 @ [EmitConnectionDisconnected]\<rparr>)"

definition CRConnection_close :: "world \<Rightarrow> world" where
  "CRConnection_close w =
     (if \<not> closed w
      then w\<lparr>transport := (transport w)\<lparr>closeCalls := closeCalls (transport w) + 1\<rparr>\<rparr>
      else w)"

text \<open>\<open>send\<close> is an \<open>async\<close> method: a \<open>throw\<close> in it comes back as \<open>Inl\<close> (the
  promise it returns is rejected with that error), a normal return as the new promise.
  \<open>site\<close> is the call stack at the call, which both \<open>new Error(...)\<close> capture.\<close>

definition CRSession_send :: "world \<Rightarrow> nat \<Rightarrow> string \<Rightarrow> json option \<Rightarrow> string \<Rightarrow> (thrown + nat) \<times> world" where
  "CRSession_send w r method params' site =
     (case deref w r of
        None \<Rightarrow> (Inl TypeError, w)
      | Some s \<Rightarrow>
          if crashed s then
            (Inl (Error \<lparr>err_message = ''Target crashed'', err_stack = site\<rparr>), w)
          else
            (case connection s of
               None \<Rightarrow>
                 (Inl (Error \<lparr>err_message = ''Protocol error ('' @ method @
                          ''): Session closed. Most likely the '' @ targetType s @
                          '' has been closed.'', err_stack = site\<rparr>), w)
             | Some c \<Rightarrow>
                 (let (id', w1) = CRConnection_rawSend w (sessionId s) method params';
                      p = promises w1;
                      entry = \<lparr>cb_promise = p, cb_error = \<lparr>err_message = [], err_stack = site\<rparr>,
                               cb_method = method\<rparr>
                  in (Inr p,
                      w1\<lparr>promises := p + 1,
                         heap := (heap w1)[r := s\<lparr>callbacks := AList.update id' entry (callbacks s)\<rparr>]\<rparr>))))"

subsection \<open>Driving the connection\<close>

text \<open>What the outside can do to a connection: a caller sends on a session it holds,
  marks it crashed or closes the connection; the transport delivers a frame through the
  \<open>onmessage\<close> hook or reports closure through the \<open>onclose\<close> hook, when the hook is
  still installed. A rejected promise of the \<open>async\<close> dispatch is dropped by the
  transport, the state it left stays.\<close>

datatype action =
    Send nat string "json option" string
  | MarkAsCrashed nat
  | Close
  | Deliver ProtocolResponse
  | TransportClosed

fun step :: "world \<Rightarrow> action \<Rightarrow> world" where
  "step w (Send r method params' site) = snd (CRSession_send w r method params' site)"
| "step w (MarkAsCrashed r) = CRSession_markAsCrashed w r"
| "step w Close = CRConnection_close w"
| "step w (Deliver message) =
     (if onmessage (transport w) then snd (CRConnection_onMessage w message) else w)"
| "step w TransportClosed =
     (if onclose (transport w) then CRConnection_onClose w else w)"

definition run :: "world \<Rightarrow> action list \<Rightarrow> world" where
  "run w as = foldl step w as"

definition fresh_transport :: transport where
  "fresh_transport = \<lparr>sent = [], onmessage = False, onclose = False, closeCalls = 0\<rparr>"

section \<open>Vocabulary of the properties\<close>

text \<open>The request that \<open>_rawSend\<close> builds for a call on session \<open>s\<close>.\<close>

definition request :: "world \<Rightarrow> CRSession \<Rightarrow> string \<Rightarrow> json option \<Rightarrow> ProtocolRequest" where
  "request w s method ps =
     \<lparr>req_id = increment (lastId w), req_method = method, req_params = ps,
      req_sessionId = (if truthy_string (sessionId s) then sessionId s else None)\<rparr>"

text \<open>A session after \<open>_onClosed\<close>, and the rejections \<open>_onClosed\<close> is expected to
  make for its pending calls: one per entry of the table, in the table's order, with the
  "target closed" message and the stack of the call site.\<close>

definition shut :: "CRSession \<Rightarrow> CRSession" where
  "shut s = s\<lparr>callbacks := [], connection := None\<rparr>"

definition target_closed_rejections :: "CRSession \<Rightarrow> settlement list" where
  "target_closed_rejections s =
     map (\<lambda>(i, cb). Reject (cb_promise cb)
            \<lparr>err_message = ''Protocol error ('' @ cb_method cb @ ''): Target closed.'',
             err_stack = err_stack (cb_error cb)\<rparr>)
       (callbacks s)"

text \<open>A session object without connection reference: the terminal state of a session.\<close>

definition dead :: "world \<Rightarrow> nat \<Rightarrow> bool" where
  "dead w r = (case deref w r of None \<Rightarrow> False | Some s \<Rightarrow> connection s = None)"

text \<open>Invariants of a running connection: every key of every pending-call table was
  issued by the counter; the counter is the number of requests handed to the transport,
  up to \<open>2^53\<close>, and the id of the last one, the ids never decrease, and they increase
  strictly for the first \<open>2^53\<close> requests; the registry names distinct, allocated
  session objects.\<close>

definition keys_ok :: "world \<Rightarrow> bool" where
  "keys_ok w = (0 \<le> lastId w \<and>
     (\<forall>s \<in> set (heap w). \<forall>k \<in> fst ` set (callbacks s). 1 \<le> k \<and> k \<le> lastId w))"

definition sent_ok :: "world \<Rightarrow> bool" where
  "sent_ok w =
     (lastId w = min (int (length (sent (transport w)))) (2 ^ 53) \<and>
      (sent (transport w) \<noteq> [] \<longrightarrow> req_id (last (sent (transport w))) = lastId w) \<and>
      sorted_wrt (\<le>) (map req_id (sent (transport w))) \<and>
      (\<forall>q \<in> set (sent (transport w)). 1 \<le> req_id q \<and> req_id q \<le> lastId w) \<and>
      (int (length (sent (transport w))) \<le> 2 ^ 53 \<longrightarrow>
         sorted_wrt (<) (map req_id (sent (transport w)))))"

definition registry_ok :: "world \<Rightarrow> bool" where
  "registry_ok w = (distinct (map snd (sessions w)) \<and>
     (\<forall>r \<in> snd ` set (sessions w). r < length (heap w)))"

text \<open>A frame names the root when it is an attach or detach notification whose
  \<open>params.sessionId\<close> is the empty string. An action keeps the root registered when it
  is neither the delivery of such a frame nor the transport's close callback.\<close>

definition names_root :: "ProtocolResponse \<Rightarrow> bool" where
  "names_root m =
     ((resp_method m = Some ''Target.attachedToTarget'' \<or>
       resp_method m = Some ''Target.detachedFromTarget'') \<and>
      (case resp_params m of None \<Rightarrow> False | Some p \<Rightarrow> params_sessionId p = Some []))"

fun keeps_root :: "action \<Rightarrow> bool" where
  "keeps_root (Deliver m) = (\<not> names_root m)"
| "keeps_root TransportClosed = False"
| "keeps_root a = True"

subsection \<open>Example connections\<close>

text \<open>A connection on a new transport with logging switched off, some frames, and the
  action sequences at which the properties below are evaluated: calls on the root and on
  an attached page session \<open>S1\<close>, and the states they leave.\<close>

definition quiet_logger :: logger where
  "quiet_logger = \<lparr>isLogEnabled = False, logged = []\<rparr>"

definition fresh_connection :: world where
  "fresh_connection = CRConnection_new fresh_transport quiet_logger"

definition fresh_root :: CRSession where
  "fresh_root = CRSession_new [] ''browser'' (Some [])"

definition frame :: ProtocolResponse where
  "frame = \<lparr>resp_id = None, resp_method = None, resp_sessionId = None, resp_error = None,
            resp_params = None, resp_result = None\<rparr>"

definition attached :: "string \<Rightarrow> string \<Rightarrow> ProtocolResponse" where
  "attached sid ty = frame\<lparr>resp_method := Some ''Target.attachedToTarget'',
     resp_params := Some \<lparr>params_sessionId = Some sid,
        params_targetInfo = Some \<lparr>ti_type = ty\<rparr>, params_rest = []\<rparr>\<rparr>"

definition detached :: "string \<Rightarrow> ProtocolResponse" where
  "detached sid = frame\<lparr>resp_method := Some ''Target.detachedFromTarget'',
     resp_params := Some \<lparr>params_sessionId = Some sid,
        params_targetInfo = None, params_rest = []\<rparr>\<rparr>"

definition three_sends :: "action list" where
  "three_sends =
     [Send 0 ''Target.attachToTarget'' None ''caller 1'',
      Deliver (attached ''S1'' ''page''),
      Send 1 ''Page.enable'' None ''caller 2'',
      Send 0 ''Browser.getVersion'' None ''caller 3'']"

definition seven_sends :: "action list" where
  "seven_sends = replicate 6 (Send 0 ''Page.enable'' None ''elsewhere'') @
     [Send 0 ''Foo.bar'' None ''caller'']"

definition boom :: ProtocolResponse where
  "boom = frame\<lparr>resp_id := Some 7,
     resp_error := Some \<lparr>pe_message = ''boom'', pe_data = None\<rparr>\<rparr>"

text \<open>\<open>2^53\<close> calls on the root session of a new connection.\<close>

definition top :: nat where
  "top = 2 ^ 53"

definition sends_to_top :: "action list" where
  "sends_to_top = replicate top (Send 0 ''Page.enable'' None ''caller'')"

definition two_pending :: "action list" where
  "two_pending =
     [Send 0 ''Target.attachToTarget'' None ''caller 1'',
      Deliver (attached ''S1'' ''page''),
      Send 1 ''Page.enable'' None ''caller 2'',
      Send 1 ''Page.navigate'' None ''caller 3'']"

definition page1 :: CRSession where
  "page1 = (CRSession_new [] ''page'' (Some ''S1''))\<lparr>callbacks :=
     [(2, \<lparr>cb_promise = 1, cb_error = \<lparr>err_message = [], err_stack = ''caller 2''\<rparr>,
           cb_method = ''Page.enable''\<rparr>),
      (3, \<lparr>cb_promise = 2, cb_error = \<lparr>err_message = [], err_stack = ''caller 3''\<rparr>,
           cb_method = ''Page.navigate''\<rparr>)]\<rparr>"

definition browser1 :: CRSession where
  "browser1 = (CRSession_new [] ''browser'' (Some []))\<lparr>callbacks :=
     [(1, \<lparr>cb_promise = 0, cb_error = \<lparr>err_message = [], err_stack = ''caller 1''\<rparr>,
           cb_method = ''Target.attachToTarget''\<rparr>)]\<rparr>"

text \<open>A page session \<open>S1\<close> and a worker session \<open>S2\<close> attached through it (its
  attach notification comes in the envelope of \<open>S1\<close>), with one call pending on the
  worker.\<close>

definition nested :: "action list" where
  "nested =
     [Deliver (attached ''S1'' ''page''),
      Deliver ((attached ''S2'' ''worker'')\<lparr>resp_sessionId := Some ''S1''\<rparr>),
      Send 2 ''Runtime.enable'' None ''caller 1'']"

definition page_s1 :: CRSession where
  "page_s1 = CRSession_new [] ''page'' (Some ''S1'')"

definition worker_s2 :: CRSession where
  "worker_s2 = (CRSession_new ''S1'' ''worker'' (Some ''S2''))\<lparr>callbacks :=
     [(1, \<lparr>cb_promise = 0, cb_error = \<lparr>err_message = [], err_stack = ''caller 1''\<rparr>,
           cb_method = ''Runtime.enable''\<rparr>)]\<rparr>"

definition attach_detach :: "action list" where
  "attach_detach = two_pending @ [Deliver (detached ''S1''), Close]"

section \<open>The counter\<close>

lemma increment_ge: "n \<le> increment n"
  by (simp add: increment_def)

lemma increment_pos: "0 \<le> n \<Longrightarrow> 1 \<le> increment n"
  by (simp add: increment_def)

lemma increment_below: "n < 2 ^ 53 \<Longrightarrow> increment n = n + 1"
  by (simp add: increment_def)

lemma increment_top: "2 ^ 53 \<le> n \<Longrightarrow> increment n = n"
  by (simp add: increment_def)

section \<open>What the operations leave unchanged\<close>

lemma onClosed_frame:
  "lastId (CRSession_onClosed w r) = lastId w"
  "transport (CRSession_onClosed w r) = transport w"
  "sessions (CRSession_onClosed w r) = sessions w"
  "rootSession (CRSession_onClosed w r) = rootSession w"
  "closed (CRSession_onClosed w r) = closed w"
  "logger (CRSession_onClosed w r) = logger w"
  "promises (CRSession_onClosed w r) = promises w"
  "length (heap (CRSession_onClosed w r)) = length (heap w)"
  by (simp_all add: CRSession_onClosed_def split: option.split)

lemma foldl_onClosed_frame:
  "lastId (foldl CRSession_onClosed w rs) = lastId w"
  "transport (foldl CRSession_onClosed w rs) = transport w"
  "sessions (foldl CRSession_onClosed w rs) = sessions w"
  "rootSession (foldl CRSession_onClosed w rs) = rootSession w"
  "closed (foldl CRSession_onClosed w rs) = closed w"
  "logger (foldl CRSession_onClosed w rs) = logger w"
  "promises (foldl CRSession_onClosed w rs) = promises w"
  "length (heap (foldl CRSession_onClosed w rs)) = length (heap w)"
  by (induction rs arbitrary: w) (simp_all add: onClosed_frame)

lemma onClose_closed: "closed (CRConnection_onClose w)"
  by (simp add: CRConnection_onClose_def Let_def foldl_onClosed_frame)

lemma close_pow_open: "\<not> closed w \<Longrightarrow> (CRConnection_close ^^ n) w = w\<lparr>transport := (transport w)\<lparr>closeCalls := closeCalls (transport w) + n\<rparr>\<rparr>"
  by (induction n) (simp_all add: CRConnection_close_def)

lemma close_pow_closed: "closed w \<Longrightarrow> (CRConnection_close ^^ n) w = w"
  by (induction n) (simp_all add: CRConnection_close_def)

lemma rawSend_eq:
  "CRConnection_rawSend w sid method ps =
     (increment (lastId w),
      (log (SEND \<lparr>req_id = increment (lastId w), req_method = method, req_params = ps,
                  req_sessionId = (if truthy_string sid then sid else None)\<rparr>) (w\<lparr>lastId := increment (lastId w)\<rparr>))
      \<lparr>transport := (transport w)\<lparr>sent := sent (transport w) @
         [\<lparr>req_id = increment (lastId w), req_method = method, req_params = ps,
           req_sessionId = (if truthy_string sid then sid else None)\<rparr>]\<rparr>\<rparr>)"
  by (simp add: CRConnection_rawSend_def Let_def log_def)

lemma log_frame:
  "lastId (log l w) = lastId w"
  "transport (log l w) = transport w"
  "sessions (log l w) = sessions w"
  "rootSession (log l w) = rootSession w"
  "closed (log l w) = closed w"
  "heap (log l w) = heap w"
  "promises (log l w) = promises w"
  "settled (log l w) = settled w"
  "microtasks (log l w) = microtasks w"
  "deref (log l w) r = deref w r"
  by (simp_all add: log_def deref_def)

section \<open>What the operations do\<close>

lemma onMessage_reply:
  assumes "deref w r = Some s" and "resp_id object = Some i" and "i \<noteq> 0"
    and "map_of (callbacks s) i = Some cb"
  shows "CRSession_onMessage w r object =
           (None, w\<lparr>heap := (heap w)[r := s\<lparr>callbacks := AList.delete i (callbacks s)\<rparr>],
                    settled := settled w @
                      [case resp_error object of
                         None \<Rightarrow> Resolve (cb_promise cb) (resp_result object)
                       | Some e \<Rightarrow> Reject (cb_promise cb)
                           (createProtocolError (cb_error cb) (cb_method cb) e)]\<rparr>)"
  using assms
  by (simp add: CRSession_onMessage_def pending_call_def split: option.split)

lemma send_crashed:
  "deref w r = Some s \<Longrightarrow> crashed s \<Longrightarrow>
     CRSession_send w r method ps site =
       (Inl (Error \<lparr>err_message = ''Target crashed'', err_stack = site\<rparr>), w)"
  by (simp add: CRSession_send_def)

lemma send_closed:
  "deref w r = Some s \<Longrightarrow> \<not> crashed s \<Longrightarrow> connection s = None \<Longrightarrow>
     CRSession_send w r method ps site =
       (Inl (Error \<lparr>err_message = ''Protocol error ('' @ method @
          ''): Session closed. Most likely the '' @ targetType s @ '' has been closed.'',
          err_stack = site\<rparr>), w)"
  by (simp add: CRSession_send_def)

lemma send_open:
  assumes "deref w r = Some s" and "\<not> crashed s" and "connection s \<noteq> None"
  shows "CRSession_send w r method ps site =
           (Inr (promises w),
            (log (SEND (request w s method ps)) (w\<lparr>lastId := increment (lastId w)\<rparr>))
              \<lparr>transport := (transport w)\<lparr>sent := sent (transport w) @ [request w s method ps]\<rparr>,
               promises := promises w + 1,
               heap := (heap w)[r := s\<lparr>callbacks := AList.update (increment (lastId w))
                   \<lparr>cb_promise = promises w,
                     cb_error = \<lparr>err_message = [], err_stack = site\<rparr>,
                     cb_method = method\<rparr> (callbacks s)\<rparr>]\<rparr>)"
  using assms
  by (auto simp add: CRSession_send_def rawSend_eq Let_def log_frame request_def log_def)

lemma onMessage_session_frame:
  "lastId (snd (CRSession_onMessage w r m)) = lastId w"
  "transport (snd (CRSession_onMessage w r m)) = transport w"
  "sessions (snd (CRSession_onMessage w r m)) = sessions w"
  "rootSession (snd (CRSession_onMessage w r m)) = rootSession w"
  "closed (snd (CRSession_onMessage w r m)) = closed w"
  "logger (snd (CRSession_onMessage w r m)) = logger w"
  "promises (snd (CRSession_onMessage w r m)) = promises w"
  "length (heap (snd (CRSession_onMessage w r m))) = length (heap w)"
  by (simp_all add: CRSession_onMessage_def Let_def split: option.split prod.split)

lemma lifecycle_frame:
  assumes "lifecycle w m = Inr w'"
  shows "lastId w' = lastId w" "transport w' = transport w" "closed w' = closed w"
    "rootSession w' = rootSession w" "logger w' = logger w" "promises w' = promises w"
  using assms
  by (auto simp add: lifecycle_def Let_def onClosed_frame split: if_splits option.splits)

section \<open>Pending-call keys come from the counter\<close>

lemma keys_ok_heap_update:
  assumes "keys_ok w" and "fst ` set (callbacks s') \<subseteq> {1..lastId w}"
  shows "keys_ok (w\<lparr>heap := (heap w)[r := s']\<rparr>)"
proof -
  have "set ((heap w)[r := s']) \<subseteq> insert s' (set (heap w))"
    by (rule set_update_subset_insert)
  with assms show ?thesis
    by (fastforce simp add: keys_ok_def)
qed

lemma deref_mem: "deref w r = Some s \<Longrightarrow> s \<in> set (heap w)"
  by (auto simp add: deref_def split: if_splits)

lemma keys_ok_deref:
  "keys_ok w \<Longrightarrow> deref w r = Some s \<Longrightarrow> fst ` set (callbacks s) \<subseteq> {1..lastId w}"
  by (drule deref_mem) (fastforce simp add: keys_ok_def)

lemma keys_ok_onClosed: "keys_ok w \<Longrightarrow> keys_ok (CRSession_onClosed w r)"
proof (cases "deref w r")
  case None
  assume "keys_ok w"
  with None show ?thesis by (simp add: CRSession_onClosed_def)
next
  case (Some s)
  assume k: "keys_ok w"
  have "keys_ok (w\<lparr>heap := (heap w)[r := s\<lparr>callbacks := [], connection := None\<rparr>]\<rparr>)"
    using k by (rule keys_ok_heap_update) simp
  then show ?thesis
    using Some by (simp add: CRSession_onClosed_def keys_ok_def)
qed

lemma keys_ok_foldl_onClosed: "keys_ok w \<Longrightarrow> keys_ok (foldl CRSession_onClosed w rs)"
  by (induction rs arbitrary: w) (simp_all add: keys_ok_onClosed)

lemma keys_ok_log: "keys_ok (log l w) = keys_ok w"
  by (simp add: keys_ok_def log_frame)

lemma keys_ok_session_onMessage: "keys_ok w \<Longrightarrow> keys_ok (snd (CRSession_onMessage w r m))"
proof (cases "deref w r")
  case None
  assume "keys_ok w"
  with None show ?thesis by (simp add: CRSession_onMessage_def)
next
  case (Some s)
  assume k: "keys_ok w"
  have sub: "fst ` set (AList.delete i (callbacks s)) \<subseteq> {1..lastId w}" for i
    using keys_ok_deref [OF k Some] dom_delete_subset [of i "callbacks s"] by blast
  have "keys_ok (w\<lparr>heap := (heap w)[r := s\<lparr>callbacks := AList.delete i (callbacks s)\<rparr>]\<rparr>)" for i
    using k by (rule keys_ok_heap_update) (simp add: sub)
  then have upd: "keys_ok (w\<lparr>heap := (heap w)[r := s\<lparr>callbacks := AList.delete i (callbacks s)\<rparr>],
      settled := x\<rparr>)" for i x
    by (simp add: keys_ok_def)
  have mt: "keys_ok (w\<lparr>microtasks := x\<rparr>)" for x
    using k by (simp add: keys_ok_def)
  show ?thesis
    using Some k upd mt
    by (simp add: CRSession_onMessage_def Let_def split: option.split prod.split)
qed

lemma keys_ok_lifecycle: "keys_ok w \<Longrightarrow> lifecycle w m = Inr w' \<Longrightarrow> keys_ok w'"
proof -
  assume k: "keys_ok w" and l: "lifecycle w m = Inr w'"
  have att: "keys_ok (w\<lparr>heap := heap w @ [CRSession_new a b c], sessions := x\<rparr>)" for a b c x
    using k by (auto simp add: keys_ok_def CRSession_new_def)
  have det: "keys_ok ((CRSession_onClosed w r)\<lparr>sessions := x\<rparr>)" for r x
    using keys_ok_onClosed [OF k, of r] by (simp add: keys_ok_def)
  show ?thesis
    using l k att det
    by (auto simp add: lifecycle_def Let_def split: if_splits option.splits)
qed

lemma keys_ok_connection_onMessage: "keys_ok w \<Longrightarrow> keys_ok (snd (CRConnection_onMessage w m))"
  by (auto simp add: CRConnection_onMessage_def Let_def keys_ok_log
        keys_ok_session_onMessage
      split: sum.split option.split dest: keys_ok_lifecycle [rotated])

lemma keys_ok_onClose: "keys_ok w \<Longrightarrow> keys_ok (CRConnection_onClose w)"
proof -
  assume k: "keys_ok w"
  then have "keys_ok (w\<lparr>closed := True,
      transport := (transport w)\<lparr>onmessage := False, onclose := False\<rparr>\<rparr>)"
    by (simp add: keys_ok_def)
  then have "keys_ok (foldl CRSession_onClosed (w\<lparr>closed := True,
      transport := (transport w)\<lparr>onmessage := False, onclose := False\<rparr>\<rparr>) rs)" for rs
    by (rule keys_ok_foldl_onClosed)
  then show ?thesis
    by (simp add: CRConnection_onClose_def Let_def keys_ok_def)
qed

lemma keys_ok_send: "keys_ok w \<Longrightarrow> keys_ok (snd (CRSession_send w r method ps site))"
proof (cases "deref w r")
  case None
  assume "keys_ok w"
  with None show ?thesis by (simp add: CRSession_send_def)
next
  case (Some s)
  assume k: "keys_ok w"
  show ?thesis
  proof (cases "\<not> crashed s \<and> connection s \<noteq> None")
    case False
    with Some k show ?thesis
      by (auto simp add: CRSession_send_def)
  next
    case True
    define w1 where "w1 = (log (SEND (request w s method ps)) (w\<lparr>lastId := increment (lastId w)\<rparr>))
        \<lparr>transport := (transport w)\<lparr>sent := sent (transport w) @ [request w s method ps]\<rparr>,
         promises := promises w + 1\<rparr>"
    have ge: "lastId w \<le> increment (lastId w)"
      by (rule increment_ge)
    have pos: "1 \<le> increment (lastId w)"
      using k by (intro increment_pos) (simp add: keys_ok_def)
    have k1: "keys_ok w1"
      using k ge by (fastforce simp add: w1_def keys_ok_def log_frame)
    have l1: "lastId w1 = increment (lastId w)" "heap w1 = heap w"
      by (simp_all add: w1_def log_frame)
    have sub: "fst ` set (AList.update (increment (lastId w)) e (callbacks s)) \<subseteq> {1..lastId w1}" for e
      using keys_ok_deref [OF k Some] ge pos
      by (auto simp add: dom_update l1)
    have "keys_ok (w1\<lparr>heap := (heap w1)[r := s\<lparr>callbacks := AList.update (increment (lastId w)) e (callbacks s)\<rparr>]\<rparr>)" for e
      using k1 by (rule keys_ok_heap_update) (simp add: sub)
    moreover have "snd (CRSession_send w r method ps site) =
        w1\<lparr>heap := (heap w1)[r := s\<lparr>callbacks := AList.update (increment (lastId w))
                   \<lparr>cb_promise = promises w,
                     cb_error = \<lparr>err_message = [], err_stack = site\<rparr>,
                     cb_method = method\<rparr> (callbacks s)\<rparr>]\<rparr>"
      using send_open [OF Some, of "method" ps site] True
      by (simp add: w1_def l1 log_frame)
    ultimately show ?thesis by simp
  qed
qed

lemma keys_ok_markAsCrashed: "keys_ok w \<Longrightarrow> keys_ok (CRSession_markAsCrashed w r)"
proof (cases "deref w r")
  case None
  assume "keys_ok w"
  with None show ?thesis by (simp add: CRSession_markAsCrashed_def)
next
  case (Some s)
  assume k: "keys_ok w"
  have "keys_ok (w\<lparr>heap := (heap w)[r := s\<lparr>crashed := True\<rparr>]\<rparr>)"
    using k by (rule keys_ok_heap_update) (simp add: keys_ok_deref [OF k Some])
  with Some show ?thesis by (simp add: CRSession_markAsCrashed_def)
qed

lemma keys_ok_close: "keys_ok w \<Longrightarrow> keys_ok (CRConnection_close w)"
  by (simp add: CRConnection_close_def keys_ok_def)

lemma keys_ok_step: "keys_ok w \<Longrightarrow> keys_ok (step w a)"
  by (cases a)
    (simp_all add: keys_ok_send keys_ok_markAsCrashed keys_ok_close
      keys_ok_connection_onMessage keys_ok_onClose)

lemma keys_ok_run: "keys_ok w \<Longrightarrow> keys_ok (run w as)"
  unfolding run_def by (induction as arbitrary: w) (simp_all add: keys_ok_step)

lemma keys_ok_new: "keys_ok (CRConnection_new t lg)"
  by (simp add: keys_ok_def CRConnection_new_def CRSession_new_def)

lemma markAsCrashed_frame:
  "lastId (CRSession_markAsCrashed w r) = lastId w"
  "transport (CRSession_markAsCrashed w r) = transport w"
  "sessions (CRSession_markAsCrashed w r) = sessions w"
  "rootSession (CRSession_markAsCrashed w r) = rootSession w"
  "closed (CRSession_markAsCrashed w r) = closed w"
  "length (heap (CRSession_markAsCrashed w r)) = length (heap w)"
  by (simp_all add: CRSession_markAsCrashed_def split: option.split)

lemma connection_onMessage_frame:
  "lastId (snd (CRConnection_onMessage w m)) = lastId w"
  "transport (snd (CRConnection_onMessage w m)) = transport w"
  "closed (snd (CRConnection_onMessage w m)) = closed w"
  "rootSession (snd (CRConnection_onMessage w m)) = rootSession w"
  by (auto simp add: CRConnection_onMessage_def Let_def log_frame onMessage_session_frame
      split: sum.split option.split dest: lifecycle_frame)

lemma onClose_frame:
  "lastId (CRConnection_onClose w) = lastId w"
  "sent (transport (CRConnection_onClose w)) = sent (transport w)"
  "closeCalls (transport (CRConnection_onClose w)) = closeCalls (transport w)"
  "rootSession (CRConnection_onClose w) = rootSession w"
  by (simp_all add: CRConnection_onClose_def Let_def foldl_onClosed_frame)

section \<open>Requests carry increasing ids\<close>

lemma send_frame:
  "(snd (CRSession_send w r method ps site) = w) \<or>
   (\<exists>q. req_id q = increment (lastId w) \<and>
        sent (transport (snd (CRSession_send w r method ps site))) = sent (transport w) @ [q] \<and>
        lastId (snd (CRSession_send w r method ps site)) = increment (lastId w))"
proof (cases "deref w r")
  case None
  then show ?thesis by (simp add: CRSession_send_def)
next
  case (Some s)
  show ?thesis
  proof (cases "\<not> crashed s \<and> connection s \<noteq> None")
    case False
    with Some show ?thesis by (auto simp add: CRSession_send_def)
  next
    case True
    then show ?thesis
      using send_open [OF Some, of "method" ps site]
      by (simp add: log_frame request_def)
  qed
qed

lemma step_sent:
  "(sent (transport (step w a)) = sent (transport w) \<and> lastId (step w a) = lastId w) \<or>
   (\<exists>q. req_id q = increment (lastId w) \<and>
        sent (transport (step w a)) = sent (transport w) @ [q] \<and>
        lastId (step w a) = increment (lastId w))"
proof (cases a)
  case (Send r m ps site)
  then show ?thesis
    using send_frame [of w r m ps site] by auto
next
  case (MarkAsCrashed r)
  then show ?thesis by (simp add: markAsCrashed_frame)
next
  case Close
  then show ?thesis by (simp add: CRConnection_close_def)
next
  case (Deliver m)
  then show ?thesis by (simp add: connection_onMessage_frame)
next
  case TransportClosed
  then show ?thesis by (simp add: onClose_frame)
qed

lemma sent_ok_lastId:
  "sent_ok w \<Longrightarrow> lastId w = min (int (length (sent (transport w)))) (2 ^ 53)"
  unfolding sent_ok_def by (elim conjE)

lemma sent_ok_last:
  "sent_ok w \<Longrightarrow> sent (transport w) \<noteq> [] \<Longrightarrow> req_id (last (sent (transport w))) = lastId w"
  unfolding sent_ok_def by blast

lemma sent_ok_mono: "sent_ok w \<Longrightarrow> sorted_wrt (\<le>) (map req_id (sent (transport w)))"
  unfolding sent_ok_def by (elim conjE)

lemma sent_ok_bounds:
  "sent_ok w \<Longrightarrow> \<forall>q \<in> set (sent (transport w)). 1 \<le> req_id q \<and> req_id q \<le> lastId w"
  unfolding sent_ok_def by (elim conjE)

lemma sent_ok_strict:
  "sent_ok w \<Longrightarrow> int (length (sent (transport w))) \<le> 2 ^ 53 \<Longrightarrow>
     sorted_wrt (<) (map req_id (sent (transport w)))"
  unfolding sent_ok_def by blast

lemma sent_ok_append:
  assumes "sent_ok w"
    and "sent (transport w') = sent (transport w) @ [q]"
    and "req_id q = increment (lastId w)"
    and "lastId w' = increment (lastId w)"
  shows "sent_ok w'"
proof -
  define n where "n = int (length (sent (transport w)))"
  have l: "lastId w = min n (2 ^ 53)"
    unfolding n_def using assms(1) by (rule sent_ok_lastId)
  have bounds: "\<forall>q \<in> set (sent (transport w)). 1 \<le> req_id q \<and> req_id q \<le> lastId w"
    using assms(1) by (rule sent_ok_bounds)
  have mono: "sorted_wrt (\<le>) (map req_id (sent (transport w)))"
    using assms(1) by (rule sent_ok_mono)
  have strict: "sorted_wrt (<) (map req_id (sent (transport w)))" if "n \<le> 2 ^ 53"
    using assms(1) that unfolding n_def by (rule sent_ok_strict)
  have n0: "0 \<le> n" by (simp add: n_def)
  have len: "int (length (sent (transport w'))) = n + 1"
    by (simp add: assms(2) n_def)
  have ge: "lastId w \<le> increment (lastId w)"
    by (rule increment_ge)
  have pos: "1 \<le> increment (lastId w)"
    using l n0 by (intro increment_pos) simp
  have a: "lastId w' = min (n + 1) (2 ^ 53)"
  proof (cases "n < 2 ^ 53")
    case True
    with l have "lastId w = n" by simp
    with True show ?thesis by (simp add: assms(4) increment_below)
  next
    case False
    with l have "lastId w = 2 ^ 53" by simp
    with False show ?thesis by (simp add: assms(4) increment_top)
  qed
  have b: "req_id (last (sent (transport w'))) = lastId w'"
    by (simp add: assms(2,3,4))
  have c: "sorted_wrt (\<le>) (map req_id (sent (transport w')))"
    using mono bounds ge by (fastforce simp add: assms(2,3) sorted_wrt_append)
  have d: "\<forall>q \<in> set (sent (transport w')). 1 \<le> req_id q \<and> req_id q \<le> lastId w'"
    using bounds ge pos by (fastforce simp add: assms(2,3,4))
  have e: "sorted_wrt (<) (map req_id (sent (transport w')))" if "n + 1 \<le> 2 ^ 53"
  proof -
    from that have lt: "n < 2 ^ 53" by simp
    with l have "lastId w = n" by simp
    with lt have "increment (lastId w) = lastId w + 1" by (simp add: increment_below)
    moreover from lt have "sorted_wrt (<) (map req_id (sent (transport w)))"
      by (intro strict) simp
    ultimately show ?thesis
      using bounds by (fastforce simp add: assms(2,3) sorted_wrt_append)
  qed
  show ?thesis
    unfolding sent_ok_def
  proof (intro conjI impI)
    show "lastId w' = min (int (length (sent (transport w')))) (2 ^ 53)"
      using a by (simp only: len)
    show "req_id (last (sent (transport w'))) = lastId w'" by (rule b)
    show "sorted_wrt (\<le>) (map req_id (sent (transport w')))" by (rule c)
    show "\<forall>q \<in> set (sent (transport w')). 1 \<le> req_id q \<and> req_id q \<le> lastId w'" by (rule d)
    assume "int (length (sent (transport w'))) \<le> 2 ^ 53"
    then have "n + 1 \<le> 2 ^ 53" by (simp only: len)
    then show "sorted_wrt (<) (map req_id (sent (transport w')))" by (rule e)
  qed
qed

lemma sent_ok_same:
  assumes "sent_ok w" and "sent (transport w') = sent (transport w)" and "lastId w' = lastId w"
  shows "sent_ok w'"
  using assms(1) unfolding sent_ok_def assms(2,3) .

lemma sent_ok_step: "sent_ok w \<Longrightarrow> sent_ok (step w a)"
  using step_sent [of w a] by (auto intro: sent_ok_append sent_ok_same)

lemma sent_ok_run: "sent_ok w \<Longrightarrow> sent_ok (run w as)"
  unfolding run_def by (induction as arbitrary: w) (simp_all add: sent_ok_step)

lemma sent_ok_new: "sent_ok (CRConnection_new fresh_transport lg)"
  by (simp add: sent_ok_def CRConnection_new_def fresh_transport_def)

lemma sorted_wrt_less_distinct: "sorted_wrt (<) (xs :: int list) \<Longrightarrow> distinct xs"
  by (induction xs) auto

text \<open>Calls on an open session all reach the transport.\<close>

lemma run_Cons: "run w (a # as) = run (step w a) as"
  by (simp add: run_def)

lemma sends_length:
  assumes "deref w r = Some s" and "\<not> crashed s" and "connection s \<noteq> None"
  shows "length (sent (transport (run w (replicate n (Send r m ps site))))) =
           length (sent (transport w)) + n"
  using assms
proof (induction n arbitrary: w s)
  case 0
  show ?case by (simp add: run_def)
next
  case (Suc n)
  define s' where "s' = s\<lparr>callbacks := AList.update (increment (lastId w))
      \<lparr>cb_promise = promises w, cb_error = \<lparr>err_message = [], err_stack = site\<rparr>,
        cb_method = m\<rparr> (callbacks s)\<rparr>"
  define w' where "w' = snd (CRSession_send w r m ps site)"
  from Suc.prems(1) have lt: "r < length (heap w)"
    by (simp add: deref_def split: if_splits)
  have w': "w' = (log (SEND (request w s m ps)) (w\<lparr>lastId := increment (lastId w)\<rparr>))
      \<lparr>transport := (transport w)\<lparr>sent := sent (transport w) @ [request w s m ps]\<rparr>,
       promises := promises w + 1,
       heap := (heap w)[r := s']\<rparr>"
    unfolding w'_def s'_def by (simp add: send_open [OF Suc.prems])
  have d: "deref w' r = Some s'"
    using lt by (simp add: w' deref_def log_frame)
  have c: "\<not> crashed s'" "connection s' \<noteq> None"
    using Suc.prems by (simp_all add: s'_def)
  have l: "length (sent (transport w')) = length (sent (transport w)) + 1"
    by (simp add: w')
  have "run w (replicate (Suc n) (Send r m ps site)) = run w' (replicate n (Send r m ps site))"
    by (simp add: run_Cons w'_def)
  with Suc.IH [OF d c] l show ?case by simp
qed

lemma createProtocolError_eq:
  "createProtocolError err method e =
     \<lparr>err_message = ''Protocol error ('' @ method @ ''): '' @ pe_message e @
        (case pe_data e of None \<Rightarrow> [] | Some d \<Rightarrow> '' '' @ d),
      err_stack = err_stack err\<rparr>"
  by (cases err) (simp add: createProtocolError_def rewriteErrorMessage_def Let_def split: option.split)

lemma keys_ok_nonzero:
  assumes "keys_ok w" and "deref w r = Some s" and "map_of (callbacks s) i = Some cb"
  shows "1 \<le> i"
proof -
  from assms(3) have "i \<in> fst ` set (callbacks s)"
    by (rule map_of_SomeD [THEN imageI, of _ _ _ fst, simplified])
  with keys_ok_deref [OF assms(1,2)] show ?thesis by auto
qed

lemma onMessage_event:
  assumes "deref w r = Some s" and "\<not> truthy_number (resp_id object)"
  shows "CRSession_onMessage w r object =
           (None, w\<lparr>microtasks := microtasks w @
              [EmitEvent r (resp_method object) (resp_params object)]\<rparr>)"
  using assms
  by (auto simp add: CRSession_onMessage_def pending_call_def assert_def split: option.split)

lemma onMessage_unmatched:
  assumes "deref w r = Some s" and "resp_id object = Some i" and "i \<noteq> 0"
    and "map_of (callbacks s) i = None"
  shows "CRSession_onMessage w r object = (Some AssertionError, w)"
  using assms
  by (simp add: CRSession_onMessage_def pending_call_def assert_def)

section \<open>Closing sessions\<close>

lemma closed_error_eq:
  "closed_error cb =
     \<lparr>err_message = ''Protocol error ('' @ cb_method cb @ ''): Target closed.'',
      err_stack = err_stack (cb_error cb)\<rparr>"
  by (cases "cb_error cb") (simp add: closed_error_def rewriteErrorMessage_def)

lemma onClosed_eq:
  assumes "deref w r = Some s"
  shows "CRSession_onClosed w r =
           w\<lparr>settled := settled w @ target_closed_rejections s,
             heap := (heap w)[r := shut s],
             microtasks := microtasks w @ [EmitSessionDisconnected r]\<rparr>"
  using assms
  by (simp add: CRSession_onClosed_def target_closed_rejections_def closed_error_eq shut_def
      case_prod_unfold comp_def)

lemma deref_lt: "deref w r = Some s \<Longrightarrow> r < length (heap w)"
  by (simp add: deref_def split: if_splits)

lemma onClosed_deref:
  assumes "deref w r = Some s"
  shows "deref (CRSession_onClosed w r) r' = (if r' = r then Some (shut s) else deref w r')"
  using assms deref_lt [OF assms]
  by (simp add: onClosed_eq) (simp add: deref_def)

lemma onClosed_settled:
  assumes "deref w r = Some s"
  shows "settled (CRSession_onClosed w r) = settled w @ target_closed_rejections s"
  using assms by (simp add: onClosed_eq)

lemma onClosed_dangling: "deref w r = None \<Longrightarrow> CRSession_onClosed w r = w"
  by (simp add: CRSession_onClosed_def)

lemma shut_shut: "shut (shut s) = shut s"
  by (simp add: shut_def)

lemma foldl_onClosed_deref:
  "deref w r = Some s \<Longrightarrow>
     deref (foldl CRSession_onClosed w rs) r = Some (if r \<in> set rs then shut s else s)"
proof (induction rs arbitrary: w s)
  case Nil
  then show ?case by simp
next
  case (Cons a rs)
  show ?case
  proof (cases "deref w a")
    case None
    with Cons.prems have "a \<noteq> r" by auto
    with None Cons show ?thesis by (simp add: onClosed_dangling)
  next
    case (Some sa)
    show ?thesis
    proof (cases "a = r")
      case True
      with Some Cons.prems have "deref (CRSession_onClosed w a) r = Some (shut s)"
        by (simp add: onClosed_deref)
      from Cons.IH [OF this] True show ?thesis by (simp add: shut_shut)
    next
      case False
      with Some Cons.prems have "deref (CRSession_onClosed w a) r = Some s"
        by (simp add: onClosed_deref)
      from Cons.IH [OF this] False show ?thesis by simp
    qed
  qed
qed

lemma foldl_onClosed_settled:
  "distinct rs \<Longrightarrow> \<forall>r \<in> set rs. r < length (heap w) \<Longrightarrow>
     settled (foldl CRSession_onClosed w rs) =
       settled w @ concat (map (\<lambda>r. target_closed_rejections (heap w ! r)) rs)"
proof (induction rs arbitrary: w)
  case Nil
  then show ?case by simp
next
  case (Cons a rs)
  from Cons.prems have a: "deref w a = Some (heap w ! a)"
    by (simp add: deref_def)
  have len: "\<forall>r \<in> set rs. r < length (heap (CRSession_onClosed w a))"
    using Cons.prems by (simp add: onClosed_frame)
  have same: "heap (CRSession_onClosed w a) ! r = heap w ! r" if "r \<in> set rs" for r
  proof -
    from that Cons.prems have "r \<noteq> a" by auto
    then show ?thesis by (simp add: onClosed_eq [OF a])
  qed
  have "settled (foldl CRSession_onClosed (CRSession_onClosed w a) rs) =
      settled (CRSession_onClosed w a) @
        concat (map (\<lambda>r. target_closed_rejections (heap (CRSession_onClosed w a) ! r)) rs)"
    using Cons.prems len by (intro Cons.IH) simp_all
  also have "map (\<lambda>r. target_closed_rejections (heap (CRSession_onClosed w a) ! r)) rs =
      map (\<lambda>r. target_closed_rejections (heap w ! r)) rs"
    by (rule map_cong) (simp_all add: same)
  finally show ?case
    by (simp add: onClosed_settled [OF a])
qed

lemma onMessage_keeps_shut:
  assumes "deref w r = Some (shut s)"
  shows "deref (snd (CRSession_onMessage w r' m)) r = Some (shut s)"
proof (cases "r' = r")
  case True
  have "pending_call (shut s) i = None" for i
    by (simp add: pending_call_def shut_def split: option.split)
  with assms True show ?thesis
    by (auto simp add: CRSession_onMessage_def deref_def split: option.split if_splits)
next
  case False
  with assms show ?thesis
    by (auto simp add: CRSession_onMessage_def deref_def Let_def split: option.split if_splits)
qed

lemma onMessage_settled_prefix:
  "\<exists>rest. settled (snd (CRSession_onMessage w r m)) = settled w @ rest"
  by (simp add: CRSession_onMessage_def Let_def split: option.split prod.split)

lemma or_empty_eq: "or_empty x = (case x of None \<Rightarrow> [] | Some sid \<Rightarrow> sid)"
  by (cases x) simp_all

lemma lifecycle_detached:
  assumes "resp_method message = Some ''Target.detachedFromTarget''"
    and "resp_params message = Some p"
    and "map_of (sessions w) (params_sessionId p) = Some r"
  shows "lifecycle w message =
           Inr ((CRSession_onClosed w r)\<lparr>sessions := AList.delete (params_sessionId p) (sessions w)\<rparr>)"
  using assms by (simp add: lifecycle_def Let_def onClosed_frame)

lemma onMessage_detached:
  assumes "resp_method message = Some ''Target.detachedFromTarget''"
    and "resp_id message \<noteq> Some (- 9999)"
    and "resp_params message = Some p"
    and "map_of (sessions w) (params_sessionId p) = Some r"
  shows "CRConnection_onMessage w message =
     (let w1 = (CRSession_onClosed (log (RECV message) w) r)
                 \<lparr>sessions := AList.delete (params_sessionId p) (sessions w)\<rparr>
      in case map_of (sessions w1) (Some (or_empty (resp_sessionId message))) of
           None \<Rightarrow> (None, w1)
         | Some r' \<Rightarrow> CRSession_onMessage w1 r' message)"
proof -
  have "map_of (sessions (log (RECV message) w)) (params_sessionId p) = Some r"
    using assms(4) by (simp add: log_frame)
  from lifecycle_detached [OF assms(1,3) this] assms(2)
  show ?thesis
    by (simp add: CRConnection_onMessage_def kBrowserCloseMessageId_def Let_def log_frame)
qed

lemma deref_heap_cong: "heap w' = heap w \<Longrightarrow> deref w' r = deref w r"
  by (simp add: deref_def)

lemma onMessage_settled_event:
  "\<not> truthy_number (resp_id m) \<Longrightarrow> settled (snd (CRSession_onMessage w r m)) = settled w"
  by (auto simp add: CRSession_onMessage_def pending_call_def assert_def split: option.split)

lemma detached_effect:
  assumes "deref w r = Some s"
    and "resp_method message = Some ''Target.detachedFromTarget''"
    and "resp_id message \<noteq> Some (- 9999)"
    and "resp_params message = Some p"
    and "map_of (sessions w) (params_sessionId p) = Some r"
  shows "(\<exists>rest. settled (snd (CRConnection_onMessage w message)) =
             settled w @ target_closed_rejections s @ rest \<and>
             (resp_id message = None \<longrightarrow> rest = [])) \<and>
         deref (snd (CRConnection_onMessage w message)) r = Some (shut s)"
proof -
  define w1 where "w1 = (CRSession_onClosed (log (RECV message) w) r)
      \<lparr>sessions := AList.delete (params_sessionId p) (sessions w)\<rparr>"
  have d0: "deref (log (RECV message) w) r = Some s"
    using assms(1) by (simp add: log_frame)
  have s1: "settled w1 = settled w @ target_closed_rejections s"
    using onClosed_settled [OF d0] by (simp add: w1_def log_frame)
  have d1: "deref w1 r = Some (shut s)"
    using onClosed_deref [OF d0, of r] by (auto simp add: w1_def deref_def split: if_splits)
  have eq: "CRConnection_onMessage w message =
      (case map_of (sessions w1) (Some (or_empty (resp_sessionId message))) of
         None \<Rightarrow> (None, w1)
       | Some r' \<Rightarrow> CRSession_onMessage w1 r' message)"
    using onMessage_detached [OF assms(2-5)] unfolding w1_def Let_def .
  show ?thesis
  proof (cases "map_of (sessions w1) (Some (or_empty (resp_sessionId message)))")
    case None
    with eq s1 d1 show ?thesis by simp
  next
    case (Some r')
    with eq have e: "snd (CRConnection_onMessage w message) = snd (CRSession_onMessage w1 r' message)"
      by simp
    obtain rest where rest: "settled (snd (CRSession_onMessage w1 r' message)) = settled w1 @ rest"
      using onMessage_settled_prefix by blast
    have "rest = []" if "resp_id message = None"
      using rest onMessage_settled_event [of message w1 r'] that by simp
    with rest s1 e onMessage_keeps_shut [OF d1, of r' message] show ?thesis
      by simp
  qed
qed

lemma onClose_effect:
  assumes "deref w r = Some s" and "r \<in> snd ` set (sessions w)"
  shows "sessions (CRConnection_onClose w) = []"
    and "deref (CRConnection_onClose w) r = Some (shut s)"
proof -
  define w1 where "w1 = w\<lparr>closed := True,
      transport := (transport w)\<lparr>onmessage := False, onclose := False\<rparr>\<rparr>"
  have d1: "deref w1 r = Some s"
  proof -
    have "deref w1 r = deref w r"
      by (rule deref_heap_cong) (simp add: w1_def)
    with assms(1) show ?thesis by simp
  qed
  have "deref (foldl CRSession_onClosed w1 (map snd (sessions w1))) r = Some (shut s)"
    using foldl_onClosed_deref [OF d1, of "map snd (sessions w1)"] assms(2)
    by (simp add: w1_def)
  moreover have "deref (CRConnection_onClose w) r =
      deref (foldl CRSession_onClosed w1 (map snd (sessions w1))) r"
    by (rule deref_heap_cong) (simp add: CRConnection_onClose_def Let_def w1_def)
  ultimately show "deref (CRConnection_onClose w) r = Some (shut s)"
    by simp
  show "sessions (CRConnection_onClose w) = []"
    by (simp add: CRConnection_onClose_def Let_def)
qed

lemma onClose_settled:
  assumes "registry_ok w"
  shows "settled (CRConnection_onClose w) =
           settled w @ concat (map (\<lambda>r. target_closed_rejections (heap w ! r)) (map snd (sessions w)))"
proof -
  define w1 where "w1 = w\<lparr>closed := True,
      transport := (transport w)\<lparr>onmessage := False, onclose := False\<rparr>\<rparr>"
  have "settled (foldl CRSession_onClosed w1 (map snd (sessions w))) =
      settled w1 @ concat (map (\<lambda>r. target_closed_rejections (heap w1 ! r)) (map snd (sessions w)))"
    using assms by (intro foldl_onClosed_settled) (auto simp add: registry_ok_def w1_def)
  then show ?thesis
    by (simp add: CRConnection_onClose_def Let_def w1_def)
qed

subsection \<open>A closed session stays closed\<close>

lemma dead_heap_cong: "heap w' = heap w \<Longrightarrow> dead w' r = dead w r"
  by (simp add: dead_def deref_def)

lemma dead_heap_eq: "dead w r \<Longrightarrow> heap w' = heap w \<Longrightarrow> dead w' r"
  using dead_heap_cong [of w' w r] by simp

lemma dead_update:
  assumes "dead w r" and "r' = r \<Longrightarrow> connection s' = None"
  shows "dead (w\<lparr>heap := (heap w)[r' := s']\<rparr>) r"
proof (cases "r' = r")
  case True
  with assms show ?thesis
    by (simp add: dead_def deref_def split: if_splits)
next
  case False
  with assms(1) show ?thesis
    by (simp add: dead_def deref_def split: if_splits)
qed

lemma dead_append: "dead w r \<Longrightarrow> dead (w\<lparr>heap := heap w @ [s']\<rparr>) r"
  by (auto simp add: dead_def deref_def nth_append split: if_splits)

lemma dead_connection: "dead w r \<Longrightarrow> deref w r = Some s \<Longrightarrow> connection s = None"
  by (simp add: dead_def)

lemma send_dead:
  assumes "dead w r"
  shows "\<exists>e. CRSession_send w r method ps site = (Inl (Error e), w)"
proof -
  from assms obtain s where s: "deref w r = Some s" "connection s = None"
    by (auto simp add: dead_def split: option.splits)
  then show ?thesis
    by (cases "crashed s") (simp_all add: send_crashed send_closed)
qed

lemma dead_send:
  assumes "dead w r"
  shows "dead (snd (CRSession_send w r' method ps site)) r"
proof (cases "deref w r'")
  case None
  with assms show ?thesis by (simp add: CRSession_send_def)
next
  case (Some s)
  show ?thesis
  proof (cases "\<not> crashed s \<and> connection s \<noteq> None")
    case False
    with Some assms show ?thesis by (auto simp add: CRSession_send_def)
  next
    case True
    with Some assms have ne: "r' \<noteq> r"
      by (auto simp add: dead_def)
    define w1 where "w1 = (log (SEND (request w s method ps)) (w\<lparr>lastId := increment (lastId w)\<rparr>))
        \<lparr>transport := (transport w)\<lparr>sent := sent (transport w) @ [request w s method ps]\<rparr>,
         promises := promises w + 1\<rparr>"
    have h: "heap w1 = heap w" by (simp add: w1_def log_frame)
    with assms have "dead w1 r" by (rule dead_heap_eq)
    then have "dead (w1\<lparr>heap := (heap w1)[r' := x]\<rparr>) r" for x
      using ne by (intro dead_update) simp_all
    moreover have "snd (CRSession_send w r' method ps site) =
        w1\<lparr>heap := (heap w1)[r' := s\<lparr>callbacks := AList.update (increment (lastId w))
                   \<lparr>cb_promise = promises w,
                     cb_error = \<lparr>err_message = [], err_stack = site\<rparr>,
                     cb_method = method\<rparr> (callbacks s)\<rparr>]\<rparr>"
      using send_open [OF Some, of "method" ps site] True
      by (simp add: w1_def h log_frame)
    ultimately show ?thesis by simp
  qed
qed

lemma dead_markAsCrashed: "dead w r \<Longrightarrow> dead (CRSession_markAsCrashed w r') r"
proof (cases "deref w r'")
  case None
  assume "dead w r"
  with None show ?thesis by (simp add: CRSession_markAsCrashed_def)
next
  case (Some s)
  assume d: "dead w r"
  then have "dead (w\<lparr>heap := (heap w)[r' := s\<lparr>crashed := True\<rparr>]\<rparr>) r"
    using Some by (intro dead_update) (auto dest: dead_connection)
  with Some show ?thesis by (simp add: CRSession_markAsCrashed_def)
qed

lemma dead_onClosed: "dead w r \<Longrightarrow> dead (CRSession_onClosed w r') r"
proof (cases "deref w r'")
  case None
  assume "dead w r"
  with None show ?thesis by (simp add: onClosed_dangling)
next
  case (Some s)
  assume d: "dead w r"
  then have "dead (w\<lparr>heap := (heap w)[r' := shut s]\<rparr>) r"
    by (intro dead_update) (simp_all add: shut_def)
  moreover have "dead (CRSession_onClosed w r') r = dead (w\<lparr>heap := (heap w)[r' := shut s]\<rparr>) r"
    by (rule dead_heap_cong) (simp add: onClosed_eq [OF Some])
  ultimately show ?thesis by simp
qed

lemma dead_foldl_onClosed: "dead w r \<Longrightarrow> dead (foldl CRSession_onClosed w rs) r"
  by (induction rs arbitrary: w) (simp_all add: dead_onClosed)

lemma dead_session_onMessage:
  assumes "dead w r"
  shows "dead (snd (CRSession_onMessage w r' m)) r"
proof (cases "deref w r'")
  case None
  with assms show ?thesis by (simp add: CRSession_onMessage_def)
next
  case (Some s)
  have u: "dead (w\<lparr>heap := (heap w)[r' := s\<lparr>callbacks := x\<rparr>]\<rparr>) r" for x
    using assms Some by (intro dead_update) (auto dest: dead_connection)
  have "dead (w\<lparr>heap := (heap w)[r' := s\<lparr>callbacks := x\<rparr>], settled := y\<rparr>) r" for x y
    using u [of x] by (rule dead_heap_eq) simp
  moreover have "dead (w\<lparr>microtasks := y\<rparr>) r" for y
    using assms by (rule dead_heap_eq) simp
  ultimately show ?thesis
    using Some assms
    by (simp add: CRSession_onMessage_def Let_def split: option.split prod.split)
qed

lemma dead_lifecycle:
  assumes "dead w r" and "lifecycle w m = Inr w'"
  shows "dead w' r"
proof -
  have att: "dead (w\<lparr>heap := heap w @ [x], sessions := y\<rparr>) r" for x y
    using dead_append [OF assms(1), of x] by (rule dead_heap_eq) simp
  have det: "dead ((CRSession_onClosed w r')\<lparr>sessions := y\<rparr>) r" for r' y
    using dead_onClosed [OF assms(1), of r'] by (rule dead_heap_eq) simp
  show ?thesis
    using assms att det
    by (auto simp add: lifecycle_def Let_def split: if_splits option.splits)
qed

lemma dead_connection_onMessage:
  assumes "dead w r"
  shows "dead (snd (CRConnection_onMessage w m)) r"
proof -
  have l: "dead (log (RECV m) w) r"
    using assms by (rule dead_heap_eq) (simp add: log_frame)
  show ?thesis
  proof (cases "lifecycle (log (RECV m) w) m")
    case (Inl ex)
    with l show ?thesis by (simp add: CRConnection_onMessage_def Let_def)
  next
    case (Inr w1)
    have w1: "dead w1 r" using l Inr by (rule dead_lifecycle)
    then have "dead (snd (CRSession_onMessage w1 r' m)) r" for r'
      by (rule dead_session_onMessage)
    with w1 show ?thesis
      using Inr l by (simp add: CRConnection_onMessage_def Let_def split: option.split)
  qed
qed

lemma dead_onClose: "dead w r \<Longrightarrow> dead (CRConnection_onClose w) r"
proof -
  assume d: "dead w r"
  define w1 where "w1 = w\<lparr>closed := True,
      transport := (transport w)\<lparr>onmessage := False, onclose := False\<rparr>\<rparr>"
  have "dead w1 r"
    using d by (rule dead_heap_eq) (simp add: w1_def)
  then have "dead (foldl CRSession_onClosed w1 (map snd (sessions w1))) r"
    by (rule dead_foldl_onClosed)
  moreover have "dead (CRConnection_onClose w) r =
      dead (foldl CRSession_onClosed w1 (map snd (sessions w1))) r"
    by (rule dead_heap_cong) (simp add: CRConnection_onClose_def Let_def w1_def)
  ultimately show ?thesis by simp
qed

lemma dead_step: "dead w r \<Longrightarrow> dead (step w a) r"
proof (cases a)
  case (Send r' m ps site)
  assume "dead w r"
  with Send show ?thesis by (simp add: dead_send)
next
  case (MarkAsCrashed r')
  assume "dead w r"
  with MarkAsCrashed show ?thesis by (simp add: dead_markAsCrashed)
next
  case Close
  assume "dead w r"
  then have "dead (CRConnection_close w) r"
    by (rule dead_heap_eq) (simp add: CRConnection_close_def)
  with Close show ?thesis by simp
next
  case (Deliver m)
  assume "dead w r"
  with Deliver show ?thesis by (simp add: dead_connection_onMessage)
next
  case TransportClosed
  assume "dead w r"
  with TransportClosed show ?thesis by (simp add: dead_onClose)
qed

lemma dead_run: "dead w r \<Longrightarrow> dead (run w as) r"
  unfolding run_def by (induction as arbitrary: w) (simp_all add: dead_step)

lemma shut_dead: "deref w r = Some (shut s) \<Longrightarrow> dead w r"
  by (simp add: dead_def shut_def)

lemma send_after_shut:
  assumes "deref w r = Some (shut s)"
  shows "\<exists>e. CRSession_send (run w as) r method ps site = (Inl (Error e), run w as)"
  by (rule send_dead [OF dead_run [OF shut_dead [OF assms]]])

section \<open>The registry\<close>

lemma send_registry_frame:
  "closed (snd (CRSession_send w r method ps site)) = closed w"
  "sessions (snd (CRSession_send w r method ps site)) = sessions w"
  "rootSession (snd (CRSession_send w r method ps site)) = rootSession w"
  "length (heap (snd (CRSession_send w r method ps site))) = length (heap w)"
  by (simp_all add: CRSession_send_def rawSend_eq log_frame Let_def split: option.split)

lemma lifecycle_root:
  assumes "lifecycle w m = Inr w'" and "\<not> names_root m"
  shows "map_of (sessions w') (Some []) = map_of (sessions w) (Some [])"
  using assms
  by (auto simp add: lifecycle_def names_root_def Let_def update_conv' delete_conv' onClosed_frame
      split: if_splits option.splits)

lemma connection_onMessage_root:
  assumes "\<not> names_root m"
  shows "map_of (sessions (snd (CRConnection_onMessage w m))) (Some []) = map_of (sessions w) (Some [])"
proof (cases "lifecycle (log (RECV m) w) m")
  case (Inl ex)
  then show ?thesis
    by (simp add: CRConnection_onMessage_def Let_def log_frame)
next
  case (Inr w1)
  from lifecycle_root [OF Inr assms] Inr show ?thesis
    by (simp add: CRConnection_onMessage_def Let_def log_frame onMessage_session_frame
        split: option.split)
qed

lemma step_root:
  assumes "keeps_root a"
  shows "map_of (sessions (step w a)) (Some []) = map_of (sessions w) (Some []) \<and>
         rootSession (step w a) = rootSession w"
  using assms
  by (cases a)
    (simp_all add: send_registry_frame markAsCrashed_frame CRConnection_close_def
      connection_onMessage_root connection_onMessage_frame)

lemma run_root:
  "list_all keeps_root as \<Longrightarrow>
     map_of (sessions (run w as)) (Some []) = map_of (sessions w) (Some []) \<and>
     rootSession (run w as) = rootSession w"
  unfolding run_def
  by (induction as arbitrary: w) (simp_all add: step_root)

lemma step_closed: "a \<noteq> TransportClosed \<Longrightarrow> closed (step w a) = closed w"
proof (cases a)
  case (Send r m ps site)
  then show ?thesis by (simp add: send_registry_frame)
next
  case (MarkAsCrashed r)
  then show ?thesis by (simp add: markAsCrashed_frame)
next
  case Close
  then show ?thesis by (simp add: CRConnection_close_def)
next
  case (Deliver m)
  then show ?thesis by (simp add: connection_onMessage_frame)
next
  case TransportClosed
  assume "a \<noteq> TransportClosed"
  with TransportClosed show ?thesis by simp
qed

lemma run_closed: "TransportClosed \<notin> set as \<Longrightarrow> closed (run w as) = closed w"
  unfolding run_def
proof (induction as arbitrary: w)
  case Nil
  show ?case by simp
next
  case (Cons a as)
  then have "a \<noteq> TransportClosed" and "TransportClosed \<notin> set as" by auto
  then show ?case
    using Cons.IH [of "step w a"] step_closed [of a w] by simp
qed

lemma update_snd_subset: "snd ` set (AList.update k v al) \<subseteq> insert v (snd ` set al)"
  by (induction al) auto

lemma distinct_snd_update:
  "distinct (map snd al) \<Longrightarrow> v \<notin> snd ` set al \<Longrightarrow> distinct (map snd (AList.update k v al))"
proof (induction al)
  case Nil
  then show ?case by simp
next
  case (Cons a al)
  obtain k' v' where a: "a = (k', v')" by (cases a)
  show ?case
  proof (cases "k' = k")
    case True
    with Cons.prems a show ?thesis by simp
  next
    case False
    have sub: "snd ` set (AList.update k v al) \<subseteq> insert v (snd ` set al)"
      by (rule update_snd_subset)
    from Cons.prems a have "v' \<noteq> v" and "v' \<notin> snd ` set al" by auto
    with sub have "v' \<notin> snd ` set (AList.update k v al)" by blast
    moreover from Cons have "distinct (map snd (AList.update k v al))" by simp
    ultimately show ?thesis using a False by simp
  qed
qed

lemma distinct_snd_delete:
  "distinct (map snd al) \<Longrightarrow> distinct (map snd (AList.delete k al))"
  by (simp add: AList.delete_eq distinct_map_filter)

lemma registry_ok_lifecycle:
  assumes "registry_ok w" and "lifecycle w m = Inr w'"
  shows "registry_ok w'"
proof -
  have att: "registry_ok (w\<lparr>heap := heap w @ [x], sessions := AList.update k (length (heap w)) (sessions w)\<rparr>)" for x k
  proof -
    have fresh: "length (heap w) \<notin> snd ` set (sessions w)"
      using assms(1) by (auto simp add: registry_ok_def)
    have "distinct (map snd (AList.update k (length (heap w)) (sessions w)))"
      using assms(1) fresh by (intro distinct_snd_update) (simp_all add: registry_ok_def)
    moreover have "\<forall>r \<in> snd ` set (AList.update k (length (heap w)) (sessions w)). r < length (heap w) + 1"
    proof
      fix r
      assume "r \<in> snd ` set (AList.update k (length (heap w)) (sessions w))"
      with update_snd_subset [of k "length (heap w)" "sessions w"]
      have "r = length (heap w) \<or> r \<in> snd ` set (sessions w)" by blast
      moreover have "\<forall>r \<in> snd ` set (sessions w). r < length (heap w)"
        using assms(1) unfolding registry_ok_def by blast
      ultimately show "r < length (heap w) + 1" by auto
    qed
    ultimately show ?thesis by (simp add: registry_ok_def)
  qed
  have det: "registry_ok ((CRSession_onClosed w r)\<lparr>sessions := AList.delete k (sessions w)\<rparr>)" for r k
  proof -
    have sub: "snd ` set (AList.delete k (sessions w)) \<subseteq> snd ` set (sessions w)"
      by (auto simp add: AList.delete_eq)
    have b: "\<forall>r \<in> snd ` set (AList.delete k (sessions w)). r < length (heap w)"
      using sub assms(1) unfolding registry_ok_def by blast
    have d: "distinct (map snd (AList.delete k (sessions w)))"
      using assms(1) by (intro distinct_snd_delete) (simp add: registry_ok_def)
    show ?thesis
      unfolding registry_ok_def using b d by (simp add: onClosed_frame)
  qed
  show ?thesis
    using assms att det
    by (auto simp add: lifecycle_def Let_def onClosed_frame split: if_splits option.splits)
qed

lemma registry_ok_frame:
  "registry_ok w \<Longrightarrow> sessions w' = sessions w \<Longrightarrow> length (heap w') = length (heap w) \<Longrightarrow>
     registry_ok w'"
  by (simp add: registry_ok_def)

lemma registry_ok_connection_onMessage:
  assumes "registry_ok w"
  shows "registry_ok (snd (CRConnection_onMessage w m))"
proof -
  have l: "registry_ok (log (RECV m) w)"
    using assms by (rule registry_ok_frame) (simp_all add: log_frame)
  show ?thesis
  proof (cases "lifecycle (log (RECV m) w) m")
    case (Inl ex)
    with l show ?thesis by (simp add: CRConnection_onMessage_def Let_def)
  next
    case (Inr w1)
    have w1: "registry_ok w1" using l Inr by (rule registry_ok_lifecycle)
    have "registry_ok (snd (CRSession_onMessage w1 r m))" for r
      using w1 by (rule registry_ok_frame) (simp_all add: onMessage_session_frame)
    with w1 show ?thesis
      using Inr l by (simp add: CRConnection_onMessage_def Let_def split: option.split)
  qed
qed

lemma registry_ok_step: "registry_ok w \<Longrightarrow> registry_ok (step w a)"
proof (cases a)
  case (Send r m ps site)
  assume "registry_ok w"
  then have "registry_ok (snd (CRSession_send w r m ps site))"
    by (rule registry_ok_frame) (simp_all add: send_registry_frame)
  with Send show ?thesis by simp
next
  case (MarkAsCrashed r)
  assume "registry_ok w"
  then have "registry_ok (CRSession_markAsCrashed w r)"
    by (rule registry_ok_frame) (simp_all add: markAsCrashed_frame)
  with MarkAsCrashed show ?thesis by simp
next
  case Close
  assume "registry_ok w"
  with Close show ?thesis
    by (simp add: CRConnection_close_def registry_ok_def)
next
  case (Deliver m)
  assume "registry_ok w"
  with Deliver show ?thesis
    by (simp add: registry_ok_connection_onMessage)
next
  case TransportClosed
  assume "registry_ok w"
  with TransportClosed show ?thesis
    by (simp add: CRConnection_onClose_def Let_def registry_ok_def)
qed

lemma registry_ok_run: "registry_ok w \<Longrightarrow> registry_ok (run w as)"
  unfolding run_def by (induction as arbitrary: w) (simp_all add: registry_ok_step)

lemma registry_ok_new: "registry_ok (CRConnection_new t lg)"
  by (simp add: registry_ok_def CRConnection_new_def)

section \<open>Evaluating the examples\<close>

lemmas model_defs =
  CRConnection_new_def fresh_transport_def quiet_logger_def CRSession_new_def
  CRSession_send_def CRConnection_rawSend_def log_def deref_def CRSession_onMessage_def
  pending_call_def assert_def createProtocolError_def rewriteErrorMessage_def
  CRSession_onClosed_def closed_error_def lifecycle_def CRConnection_onMessage_def
  CRConnection_onClose_def CRConnection_close_def CRSession_markAsCrashed_def
  kBrowserCloseMessageId_def frame_def attached_def detached_def Let_def increment_def


lemma fresh_connection_root: "deref (CRConnection_new fresh_transport quiet_logger) 0 = Some fresh_root"
  by (simp add: model_defs fresh_root_def)

lemma three_sends_eval:
  "sent (transport (run fresh_connection three_sends)) =
     [\<lparr>req_id = 1, req_method = ''Target.attachToTarget'', req_params = None, req_sessionId = None\<rparr>,
      \<lparr>req_id = 2, req_method = ''Page.enable'', req_params = None, req_sessionId = Some ''S1''\<rparr>,
      \<lparr>req_id = 3, req_method = ''Browser.getVersion'', req_params = None, req_sessionId = None\<rparr>]"
  by (simp add: three_sends_def fresh_connection_def run_def model_defs)

lemma three_sends_lastId: "lastId (run fresh_connection three_sends) = 3"
  by (simp add: three_sends_def fresh_connection_def run_def model_defs)

lemma seven_sends_root:
  "deref (run fresh_connection seven_sends) 0 = Some (fresh_root\<lparr>callbacks :=
      map (\<lambda>i. (i, \<lparr>cb_promise = nat (i - 1),
                     cb_error = \<lparr>err_message = [], err_stack = ''elsewhere''\<rparr>,
                     cb_method = ''Page.enable''\<rparr>)) [1, 2, 3, 4, 5, 6] @
      [(7, \<lparr>cb_promise = 6, cb_error = \<lparr>err_message = [], err_stack = ''caller''\<rparr>,
            cb_method = ''Foo.bar''\<rparr>)]\<rparr>)"
  by (simp add: seven_sends_def fresh_connection_def run_def model_defs fresh_root_def eval_nat_numeral)

lemma two_pending_eval:
  "run fresh_connection two_pending =
     \<lparr>lastId = 3,
      transport = \<lparr>sent =
        [\<lparr>req_id = 1, req_method = ''Target.attachToTarget'', req_params = None, req_sessionId = None\<rparr>,
         \<lparr>req_id = 2, req_method = ''Page.enable'', req_params = None, req_sessionId = Some ''S1''\<rparr>,
         \<lparr>req_id = 3, req_method = ''Page.navigate'', req_params = None, req_sessionId = Some ''S1''\<rparr>],
        onmessage = True, onclose = True, closeCalls = 0\<rparr>,
      sessions = [(Some [], 0), (Some ''S1'', 1)],
      rootSession = 0, closed = False, logger = quiet_logger,
      heap = [browser1, page1],
      promises = 3, settled = [],
      microtasks = [EmitEvent 0 (Some ''Target.attachedToTarget'')
        (Some \<lparr>params_sessionId = Some ''S1'', params_targetInfo = Some \<lparr>ti_type = ''page''\<rparr>,
               params_rest = []\<rparr>)]\<rparr>"
  by (simp add: two_pending_def fresh_connection_def run_def model_defs page1_def browser1_def)

lemma nested_eval:
  "run fresh_connection nested =
     \<lparr>lastId = 1,
      transport = \<lparr>sent =
        [\<lparr>req_id = 1, req_method = ''Runtime.enable'', req_params = None, req_sessionId = Some ''S2''\<rparr>],
        onmessage = True, onclose = True, closeCalls = 0\<rparr>,
      sessions = [(Some [], 0), (Some ''S1'', 1), (Some ''S2'', 2)],
      rootSession = 0, closed = False, logger = quiet_logger,
      heap = [fresh_root, page_s1, worker_s2],
      promises = 1, settled = [],
      microtasks =
        [EmitEvent 0 (Some ''Target.attachedToTarget'')
           (Some \<lparr>params_sessionId = Some ''S1'', params_targetInfo = Some \<lparr>ti_type = ''page''\<rparr>,
                  params_rest = []\<rparr>),
         EmitEvent 1 (Some ''Target.attachedToTarget'')
           (Some \<lparr>params_sessionId = Some ''S2'', params_targetInfo = Some \<lparr>ti_type = ''worker''\<rparr>,
                  params_rest = []\<rparr>)]\<rparr>"
  by (simp add: nested_def fresh_connection_def run_def model_defs page_s1_def worker_s2_def
      fresh_root_def)

section \<open>The claims\<close>

subsection \<open>C1\<close>

text \<open>C1 (as amended): the first \<open>2^53\<close> request ids of one connection are strictly
  increasing and never repeat, whichever sessions send, and ids never decrease. After any
  sequence of actions on a new connection the counter \<open>lastId\<close> is the number of
  requests handed to the transport, up to \<open>2^53\<close>; as long as that number is at most
  \<open>2^53\<close> their ids are strictly increasing and pairwise distinct. Every
  \<open>_rawSend\<close>, for any session id, moves the one counter of the connection, returns
  its new value and hands the transport a request with that id, which is the number of
  requests so far plus one, up to \<open>2^53\<close>; below \<open>2^53\<close> requests that id is the
  counter plus one and above every id issued before.\<close>

theorem rawSend_ids_strictly_increasing:
  "let w = run (CRConnection_new fresh_transport lg) as;
       ids = map req_id (sent (transport w))
   in lastId w = min (int (length ids)) (2 ^ 53) \<and>
      sorted_wrt (\<le>) ids \<and>
      (int (length ids) \<le> 2 ^ 53 \<longrightarrow> sorted_wrt (<) ids \<and> distinct ids) \<and>
      (\<forall>sessionId' method ps.
         lastId (snd (CRConnection_rawSend w sessionId' method ps)) =
           fst (CRConnection_rawSend w sessionId' method ps) \<and>
         map req_id (sent (transport (snd (CRConnection_rawSend w sessionId' method ps)))) =
           ids @ [fst (CRConnection_rawSend w sessionId' method ps)] \<and>
         fst (CRConnection_rawSend w sessionId' method ps) = min (int (length ids) + 1) (2 ^ 53) \<and>
         (int (length ids) < 2 ^ 53 \<longrightarrow>
            fst (CRConnection_rawSend w sessionId' method ps) = lastId w + 1 \<and>
            (\<forall>i \<in> set ids. i < fst (CRConnection_rawSend w sessionId' method ps))))"
proof -
  define w where "w = run (CRConnection_new fresh_transport lg) as"
  define ids where "ids = map req_id (sent (transport w))"
  have ok: "sent_ok w"
    unfolding w_def by (rule sent_ok_run [OF sent_ok_new])
  have len: "length ids = length (sent (transport w))"
    by (simp add: ids_def)
  have l: "lastId w = min (int (length ids)) (2 ^ 53)"
    unfolding len using ok by (rule sent_ok_lastId)
  have mono: "sorted_wrt (\<le>) ids"
    unfolding ids_def using ok by (rule sent_ok_mono)
  have bounds: "\<forall>q \<in> set (sent (transport w)). req_id q \<le> lastId w"
    using sent_ok_bounds [OF ok] by blast
  have strict: "int (length ids) \<le> 2 ^ 53 \<longrightarrow> sorted_wrt (<) ids"
    using sent_ok_strict [OF ok] by (simp add: ids_def)
  have dist: "distinct ids" if "int (length ids) \<le> 2 ^ 53"
    using strict that by (simp add: sorted_wrt_less_distinct)
  have next_id: "fst (CRConnection_rawSend w sessionId' m ps) = lastId w + 1 \<and>
      (\<forall>i \<in> set ids. i < fst (CRConnection_rawSend w sessionId' m ps))"
    if "int (length ids) < 2 ^ 53" for sessionId' m ps
  proof -
    from that l have "lastId w < 2 ^ 53" by simp
    then have "increment (lastId w) = lastId w + 1" by (rule increment_below)
    with bounds show ?thesis
      by (fastforce simp add: rawSend_eq ids_def)
  qed
  have moved: "lastId (snd (CRConnection_rawSend w sessionId' m ps)) =
        fst (CRConnection_rawSend w sessionId' m ps) \<and>
      map req_id (sent (transport (snd (CRConnection_rawSend w sessionId' m ps)))) =
        ids @ [fst (CRConnection_rawSend w sessionId' m ps)]" for sessionId' m ps
    by (simp add: rawSend_eq log_frame ids_def)
  have val: "fst (CRConnection_rawSend w sessionId' m ps) = min (int (length ids) + 1) (2 ^ 53)"
    for sessionId' m ps
  proof (cases "int (length ids) < 2 ^ 53")
    case True
    with l have "lastId w = int (length ids)" by simp
    with True next_id [OF True, of sessionId' m ps] show ?thesis by simp
  next
    case False
    with l have "lastId w = 2 ^ 53" by simp
    then have "fst (CRConnection_rawSend w sessionId' m ps) = 2 ^ 53"
      by (simp add: rawSend_eq increment_top)
    with False show ?thesis by simp
  qed
  show ?thesis
    unfolding Let_def w_def [symmetric] ids_def [symmetric]
    using l mono strict dist next_id moved val by blast
qed

theorem rawSend_ids_strictly_increasing_witness:
  "map req_id (sent (transport (run (CRConnection_new fresh_transport quiet_logger) three_sends))) = [1, 2, 3] \<and>
   map req_sessionId (sent (transport (run (CRConnection_new fresh_transport quiet_logger) three_sends))) =
     [None, Some ''S1'', None] \<and>
   lastId (run (CRConnection_new fresh_transport quiet_logger) three_sends) = 3 \<and>
   sorted_wrt (<) (map req_id (sent (transport (run (CRConnection_new fresh_transport quiet_logger) three_sends)))) \<and>
   distinct (map req_id (sent (transport (run (CRConnection_new fresh_transport quiet_logger) three_sends)))) \<and>
   fst (CRConnection_rawSend (run (CRConnection_new fresh_transport quiet_logger) three_sends) (Some ''S1'') ''Page.reload'' None) = 4"
proof -
  define w where "w = run (CRConnection_new fresh_transport quiet_logger) three_sends"
  have e: "sent (transport w) =
     [\<lparr>req_id = 1, req_method = ''Target.attachToTarget'', req_params = None, req_sessionId = None\<rparr>,
      \<lparr>req_id = 2, req_method = ''Page.enable'', req_params = None, req_sessionId = Some ''S1''\<rparr>,
      \<lparr>req_id = 3, req_method = ''Browser.getVersion'', req_params = None, req_sessionId = None\<rparr>]"
    using three_sends_eval by (simp add: w_def fresh_connection_def)
  have n: "int (length (map req_id (sent (transport w)))) \<le> 2 ^ 53"
    "int (length (map req_id (sent (transport w)))) < 2 ^ 53"
    by (simp_all add: e)
  note all = rawSend_ids_strictly_increasing [of quiet_logger three_sends,
      unfolded Let_def, folded w_def]
  from all have l: "lastId w = min (int (length (map req_id (sent (transport w))))) (2 ^ 53)"
    by (rule conjunct1)
  from all n(1) have s: "sorted_wrt (<) (map req_id (sent (transport w))) \<and>
      distinct (map req_id (sent (transport w)))"
    by (elim conjE) simp
  from all have "\<forall>sessionId' m ps.
      int (length (map req_id (sent (transport w)))) < 2 ^ 53 \<longrightarrow>
      fst (CRConnection_rawSend w sessionId' m ps) = lastId w + 1"
    by (elim conjE) simp
  with n(2) have f: "fst (CRConnection_rawSend w (Some ''S1'') ''Page.reload'' None) = lastId w + 1"
    by simp
  have l3: "lastId w = 3"
    using l by (simp add: e)
  show ?thesis
    unfolding w_def [symmetric]
    using s f l3 by (simp add: e)
qed

text \<open>The claim as written, never a repeated id, fails once \<open>2^53\<close> ids are out: after
  \<open>2^53\<close> calls on the root session of a new connection the last request has the id
  \<open>2^53\<close>, and the next \<open>_rawSend\<close> returns \<open>2^53\<close> again.\<close>

theorem rawSend_repeats_at_top:
  "length (sent (transport (run (CRConnection_new fresh_transport quiet_logger) sends_to_top))) = top \<and>
   int top = 2 ^ 53 \<and>
   req_id (last (sent (transport (run (CRConnection_new fresh_transport quiet_logger) sends_to_top)))) =
     2 ^ 53 \<and>
   fst (CRConnection_rawSend (run (CRConnection_new fresh_transport quiet_logger) sends_to_top)
     (Some ''S1'') ''Page.reload'' None) = 2 ^ 53"
proof -
  define w where "w = run (CRConnection_new fresh_transport quiet_logger) sends_to_top"
  have t: "int top = 2 ^ 53"
    by (simp add: top_def)
  have r: "\<not> crashed fresh_root" "connection fresh_root \<noteq> None"
    by (simp_all add: fresh_root_def CRSession_new_def)
  have "length (sent (transport w)) =
      length (sent (transport (CRConnection_new fresh_transport quiet_logger))) + top"
    unfolding w_def sends_to_top_def
    by (rule sends_length [OF fresh_connection_root r])
  then have len: "length (sent (transport w)) = top"
    by (simp add: CRConnection_new_def fresh_transport_def)
  have ok: "sent_ok w"
    unfolding w_def by (rule sent_ok_run [OF sent_ok_new])
  have "0 < top" by (simp add: top_def)
  with len have ne: "sent (transport w) \<noteq> []" by auto
  from ok have l: "lastId w = min (int (length (sent (transport w)))) (2 ^ 53)"
    by (rule sent_ok_lastId)
  then have l': "lastId w = 2 ^ 53"
    by (simp add: len t)
  from ok ne have "req_id (last (sent (transport w))) = lastId w"
    by (rule sent_ok_last)
  with l' have a: "req_id (last (sent (transport w))) = 2 ^ 53" by simp
  have b: "fst (CRConnection_rawSend w (Some ''S1'') ''Page.reload'' None) = 2 ^ 53"
    by (simp add: rawSend_eq l' increment_top)
  show ?thesis
    unfolding w_def [symmetric] using len t a b by simp
qed

subsection \<open>C2\<close>

text \<open>C2: on any close every still-pending call of the session is rejected exactly
  once with \<open>Protocol error (<method>): Target closed.\<close> and the stack of its call
  site, the pending-call table is emptied, and the connection reference is cleared, so
  that every later \<open>send\<close> on the session, after whatever else happens to the
  connection, fails at once and leaves the state alone.
  This holds for \<open>_onClosed\<close> itself, for the dispatch of a detach notification that
  names the session, and for the transport-close handler, which does it for every
  registered session (the rejections then follow the registry's order) and empties the
  registry.\<close>

theorem close_rejects_every_pending_call:
  assumes "deref w r = Some s"
  shows
    "(let w' = CRSession_onClosed w r
      in settled w' = settled w @ target_closed_rejections s \<and>
         deref w' r = Some (s\<lparr>callbacks := [], connection := None\<rparr>) \<and>
         (\<forall>as method ps site. \<exists>e.
              CRSession_send (run w' as) r method ps site = (Inl (Error e), run w' as))) \<and>
     (\<forall>message p.
        resp_method message = Some ''Target.detachedFromTarget'' \<and>
        resp_id message \<noteq> Some (- 9999) \<and>
        resp_params message = Some p \<and>
        map_of (sessions w) (params_sessionId p) = Some r \<longrightarrow>
        (let w' = snd (CRConnection_onMessage w message)
         in (\<exists>rest. settled w' = settled w @ target_closed_rejections s @ rest \<and>
                    (resp_id message = None \<longrightarrow> rest = [])) \<and>
            deref w' r = Some (s\<lparr>callbacks := [], connection := None\<rparr>) \<and>
            (\<forall>as method ps site. \<exists>e.
              CRSession_send (run w' as) r method ps site = (Inl (Error e), run w' as)))) \<and>
     (r \<in> snd ` set (sessions w) \<longrightarrow>
        (let w' = CRConnection_onClose w
         in sessions w' = [] \<and>
            deref w' r = Some (s\<lparr>callbacks := [], connection := None\<rparr>) \<and>
            (\<forall>as method ps site. \<exists>e.
              CRSession_send (run w' as) r method ps site = (Inl (Error e), run w' as)) \<and>
            (registry_ok w \<longrightarrow>
               settled w' = settled w @
                 concat (map (\<lambda>r'. target_closed_rejections (heap w ! r')) (map snd (sessions w))))))"
proof (intro conjI allI impI)
  show "let w' = CRSession_onClosed w r
      in settled w' = settled w @ target_closed_rejections s \<and>
         deref w' r = Some (s\<lparr>callbacks := [], connection := None\<rparr>) \<and>
         (\<forall>as method ps site. \<exists>e.
              CRSession_send (run w' as) r method ps site = (Inl (Error e), run w' as))"
  proof -
    have d: "deref (CRSession_onClosed w r) r = Some (shut s)"
      using onClosed_deref [OF assms, of r] by simp
    show ?thesis
      unfolding Let_def
      using onClosed_settled [OF assms] d send_after_shut [OF d]
      by (simp add: shut_def)
  qed
next
  fix message :: ProtocolResponse and p :: params
  assume h: "resp_method message = Some ''Target.detachedFromTarget'' \<and>
        resp_id message \<noteq> Some (- 9999) \<and>
        resp_params message = Some p \<and>
        map_of (sessions w) (params_sessionId p) = Some r"
  have e: "(\<exists>rest. settled (snd (CRConnection_onMessage w message)) =
             settled w @ target_closed_rejections s @ rest \<and>
             (resp_id message = None \<longrightarrow> rest = [])) \<and>
         deref (snd (CRConnection_onMessage w message)) r = Some (shut s)"
  proof -
    from h have h1: "resp_method message = Some ''Target.detachedFromTarget''"
      and h2: "resp_id message \<noteq> Some (- 9999)"
      and h3: "resp_params message = Some p"
      and h4: "map_of (sessions w) (params_sessionId p) = Some r"
      by simp_all
    show ?thesis by (rule detached_effect [OF assms h1 h2 h3 h4])
  qed
  then have d: "deref (snd (CRConnection_onMessage w message)) r = Some (shut s)" ..
  show "let w' = snd (CRConnection_onMessage w message)
         in (\<exists>rest. settled w' = settled w @ target_closed_rejections s @ rest \<and>
                    (resp_id message = None \<longrightarrow> rest = [])) \<and>
            deref w' r = Some (s\<lparr>callbacks := [], connection := None\<rparr>) \<and>
            (\<forall>as method ps site. \<exists>e.
              CRSession_send (run w' as) r method ps site = (Inl (Error e), run w' as))"
    unfolding Let_def
    using e send_after_shut [OF d] by (simp add: shut_def)
next
  assume m: "r \<in> snd ` set (sessions w)"
  have d: "deref (CRConnection_onClose w) r = Some (shut s)"
    using assms m by (rule onClose_effect)
  show "let w' = CRConnection_onClose w
         in sessions w' = [] \<and>
            deref w' r = Some (s\<lparr>callbacks := [], connection := None\<rparr>) \<and>
            (\<forall>as method ps site. \<exists>e.
              CRSession_send (run w' as) r method ps site = (Inl (Error e), run w' as)) \<and>
            (registry_ok w \<longrightarrow>
               settled w' = settled w @
                 concat (map (\<lambda>r'. target_closed_rejections (heap w ! r')) (map snd (sessions w))))"
    unfolding Let_def
    using onClose_effect(1) [OF assms m] d send_after_shut [OF d] onClose_settled [of w]
    by (simp add: shut_def)
qed

theorem close_rejects_every_pending_call_witness:
  "settled (CRSession_onClosed (run (CRConnection_new fresh_transport quiet_logger) two_pending) 1) =
     [Reject 1 \<lparr>err_message = ''Protocol error (Page.enable): Target closed.'', err_stack = ''caller 2''\<rparr>,
      Reject 2 \<lparr>err_message = ''Protocol error (Page.navigate): Target closed.'', err_stack = ''caller 3''\<rparr>] \<and>
   settled (snd (CRConnection_onMessage (run (CRConnection_new fresh_transport quiet_logger) two_pending)
       (detached ''S1''))) =
     [Reject 1 \<lparr>err_message = ''Protocol error (Page.enable): Target closed.'', err_stack = ''caller 2''\<rparr>,
      Reject 2 \<lparr>err_message = ''Protocol error (Page.navigate): Target closed.'', err_stack = ''caller 3''\<rparr>] \<and>
   settled (CRConnection_onClose (run (CRConnection_new fresh_transport quiet_logger) two_pending)) =
     [Reject 0 \<lparr>err_message = ''Protocol error (Target.attachToTarget): Target closed.'', err_stack = ''caller 1''\<rparr>,
      Reject 1 \<lparr>err_message = ''Protocol error (Page.enable): Target closed.'', err_stack = ''caller 2''\<rparr>,
      Reject 2 \<lparr>err_message = ''Protocol error (Page.navigate): Target closed.'', err_stack = ''caller 3''\<rparr>] \<and>
   deref (CRConnection_onClose (run (CRConnection_new fresh_transport quiet_logger) two_pending)) 1 =
     Some (page1\<lparr>callbacks := [], connection := None\<rparr>) \<and>
   (\<exists>e. CRSession_send
           (run (CRConnection_onClose (run (CRConnection_new fresh_transport quiet_logger) two_pending))
              [Send 0 ''Browser.close'' None ''caller 4''])
           1 ''Page.reload'' None ''caller 5'' =
         (Inl (Error e),
          run (CRConnection_onClose (run (CRConnection_new fresh_transport quiet_logger) two_pending))
            [Send 0 ''Browser.close'' None ''caller 4'']))"
proof -
  define w where "w = run (CRConnection_new fresh_transport quiet_logger) two_pending"
  have w: "w = run fresh_connection two_pending" by (simp add: w_def fresh_connection_def)
  have d: "deref w 1 = Some page1"
    by (simp add: w two_pending_eval deref_def)
  have ok: "registry_ok w"
    by (simp add: w two_pending_eval registry_ok_def)
  have m: "1 \<in> snd ` set (sessions w)"
    by (simp add: w two_pending_eval)
  have f: "resp_method (detached ''S1'') = Some ''Target.detachedFromTarget'' \<and>
      resp_id (detached ''S1'') \<noteq> Some (- 9999) \<and>
      resp_params (detached ''S1'') = Some \<lparr>params_sessionId = Some ''S1'',
        params_targetInfo = None, params_rest = []\<rparr> \<and>
      map_of (sessions w) (params_sessionId \<lparr>params_sessionId = Some ''S1'',
        params_targetInfo = None, params_rest = []\<rparr>) = Some 1"
    by (simp add: w two_pending_eval detached_def frame_def)
  have n: "resp_id (detached ''S1'') = None"
    by (simp add: detached_def frame_def)
  have v: "settled w = []" "sessions w = [(Some [], 0), (Some ''S1'', 1)]" "heap w = [browser1, page1]"
    by (simp_all add: w two_pending_eval)
  have r: "target_closed_rejections page1 =
     [Reject 1 \<lparr>err_message = ''Protocol error (Page.enable): Target closed.'', err_stack = ''caller 2''\<rparr>,
      Reject 2 \<lparr>err_message = ''Protocol error (Page.navigate): Target closed.'', err_stack = ''caller 3''\<rparr>]"
    "target_closed_rejections browser1 =
     [Reject 0 \<lparr>err_message = ''Protocol error (Target.attachToTarget): Target closed.'', err_stack = ''caller 1''\<rparr>]"
    by (simp_all add: target_closed_rejections_def page1_def browser1_def)
  note all = close_rejects_every_pending_call [OF d, unfolded Let_def]
  note det = all [THEN conjunct2, THEN conjunct1, rule_format, OF f]
  note cls = all [THEN conjunct2, THEN conjunct2, rule_format, OF m]
  from all have a: "settled (CRSession_onClosed w 1) = settled w @ target_closed_rejections page1"
    by (rule conjunct1 [THEN conjunct1])
  from det [THEN conjunct1] obtain rest where
    b: "settled (snd (CRConnection_onMessage w (detached ''S1''))) =
          settled w @ target_closed_rejections page1 @ rest"
      "resp_id (detached ''S1'') = None \<longrightarrow> rest = []"
    by auto
  from cls ok have c: "settled (CRConnection_onClose w) = settled w @
      concat (map (\<lambda>r'. target_closed_rejections (heap w ! r')) (map snd (sessions w)))"
    by auto
  from cls have e: "deref (CRConnection_onClose w) 1 =
      Some (page1\<lparr>callbacks := [], connection := None\<rparr>)"
    by auto
  from cls have g: "\<exists>e. CRSession_send
      (run (CRConnection_onClose w) [Send 0 ''Browser.close'' None ''caller 4''])
      1 ''Page.reload'' None ''caller 5'' =
        (Inl (Error e), run (CRConnection_onClose w) [Send 0 ''Browser.close'' None ''caller 4''])"
    by auto
  show ?thesis
    unfolding w_def [symmetric]
    using a b c e g n v r by simp
qed

subsection \<open>C3\<close>

text \<open>C3: in a running connection, an envelope whose id is the key of a pending call of
  the session removes that entry and settles its promise, with no exception: with an
  \<open>error\<close> field it rejects with \<open>Protocol error (<method>): <message>\<close>, followed
  by a space and the error's data when the reply has them, on the stack of the call site;
  without one it resolves with the \<open>result\<close> field.\<close>

theorem onMessage_settles_pending_call:
  assumes "w = run (CRConnection_new t lg) as"
    and "deref w r = Some s"
    and "resp_id object = Some i"
    and "map_of (callbacks s) i = Some cb"
  shows "CRSession_onMessage w r object =
           (None, w\<lparr>heap := (heap w)[r := s\<lparr>callbacks := AList.delete i (callbacks s)\<rparr>],
                    settled := settled w @
                      [case resp_error object of
                         None \<Rightarrow> Resolve (cb_promise cb) (resp_result object)
                       | Some e \<Rightarrow> Reject (cb_promise cb)
                           \<lparr>err_message = ''Protocol error ('' @ cb_method cb @ ''): '' @
                              pe_message e @ (case pe_data e of None \<Rightarrow> [] | Some d \<Rightarrow> '' '' @ d),
                            err_stack = err_stack (cb_error cb)\<rparr>]\<rparr>) \<and>
         map_of (AList.delete i (callbacks s)) i = None"
proof -
  have "keys_ok w"
    unfolding assms(1) by (rule keys_ok_run [OF keys_ok_new])
  then have "1 \<le> i"
    using assms(2,4) by (rule keys_ok_nonzero)
  then have nz: "i \<noteq> 0" by simp
  show ?thesis
    using onMessage_reply [OF assms(2,3) nz assms(4)]
    by (simp add: createProtocolError_eq delete_conv' cong: option.case_cong)
qed

theorem onMessage_settles_pending_call_witness:
  "settled (snd (CRSession_onMessage (run (CRConnection_new fresh_transport quiet_logger) seven_sends) 0 boom)) =
     settled (run (CRConnection_new fresh_transport quiet_logger) seven_sends) @
       [Reject 6 \<lparr>err_message = ''Protocol error (Foo.bar): boom'', err_stack = ''caller''\<rparr>] \<and>
   fst (CRSession_onMessage (run (CRConnection_new fresh_transport quiet_logger) seven_sends) 0 boom) = None"
proof -
  have i: "resp_id boom = Some 7" and e: "resp_error boom = Some \<lparr>pe_message = ''boom'', pe_data = None\<rparr>"
    by (simp_all add: boom_def frame_def)
  show ?thesis
    using onMessage_settles_pending_call [OF refl seven_sends_root [unfolded fresh_connection_def] i, of
        "\<lparr>cb_promise = 6, cb_error = \<lparr>err_message = [], err_stack = ''caller''\<rparr>,
            cb_method = ''Foo.bar''\<rparr>"] e
    by simp
qed

subsection \<open>C4\<close>



subsection \<open>C5\<close>

text \<open>C5 (as amended): an envelope that carries a non-zero id matching no pending call
  of the session fails with an assertion error and changes nothing; the event branch is
  taken exactly for envelopes that carry no id or the id 0.\<close>

theorem onMessage_unmatched_id:
  assumes "deref w r = Some s"
  shows "(\<forall>i. resp_id object = Some i \<and> i \<noteq> 0 \<and> map_of (callbacks s) i = None \<longrightarrow>
            CRSession_onMessage w r object = (Some AssertionError, w)) \<and>
         (resp_id object = None \<or> resp_id object = Some 0 \<longrightarrow>
            CRSession_onMessage w r object =
              (None, w\<lparr>microtasks := microtasks w @
                 [EmitEvent r (resp_method object) (resp_params object)]\<rparr>)) \<and>
         (microtasks (snd (CRSession_onMessage w r object)) \<noteq> microtasks w \<longrightarrow>
            resp_id object = None \<or> resp_id object = Some 0)"
proof (intro conjI allI impI)
  fix i
  assume "resp_id object = Some i \<and> i \<noteq> 0 \<and> map_of (callbacks s) i = None"
  then show "CRSession_onMessage w r object = (Some AssertionError, w)"
    using onMessage_unmatched [OF assms] by blast
next
  assume "resp_id object = None \<or> resp_id object = Some 0"
  then have "\<not> truthy_number (resp_id object)" by auto
  with assms show "CRSession_onMessage w r object =
      (None, w\<lparr>microtasks := microtasks w @
         [EmitEvent r (resp_method object) (resp_params object)]\<rparr>)"
    by (rule onMessage_event)
next
  assume m: "microtasks (snd (CRSession_onMessage w r object)) \<noteq> microtasks w"
  show "resp_id object = None \<or> resp_id object = Some 0"
  proof (rule ccontr)
    assume "\<not> (resp_id object = None \<or> resp_id object = Some 0)"
    then obtain i where i: "resp_id object = Some i" "i \<noteq> 0" by auto
    show False
    proof (cases "map_of (callbacks s) i")
      case None
      with onMessage_unmatched [OF assms i] m show False by simp
    next
      case (Some cb)
      with onMessage_reply [OF assms i] m show False by simp
    qed
  qed
qed

theorem onMessage_unmatched_id_witness:
  "CRSession_onMessage (CRConnection_new fresh_transport quiet_logger) 0 (frame\<lparr>resp_id := Some 5\<rparr>) =
     (Some AssertionError, CRConnection_new fresh_transport quiet_logger) \<and>
   CRSession_onMessage (CRConnection_new fresh_transport quiet_logger) 0
       (frame\<lparr>resp_method := Some ''Foo.baz''\<rparr>) =
     (None, (CRConnection_new fresh_transport quiet_logger)\<lparr>microtasks :=
        [EmitEvent 0 (Some ''Foo.baz'') None]\<rparr>)"
proof -
  have c: "callbacks fresh_root = []"
    by (simp add: fresh_root_def CRSession_new_def)
  have m: "microtasks (CRConnection_new fresh_transport quiet_logger) = []"
    by (simp add: CRConnection_new_def)
  show ?thesis
    using onMessage_unmatched_id [OF fresh_connection_root, of "frame\<lparr>resp_id := Some 5\<rparr>"]
      onMessage_unmatched_id [OF fresh_connection_root, of "frame\<lparr>resp_method := Some ''Foo.baz''\<rparr>"] c m
    by (simp add: frame_def)
qed

text \<open>The claim as written, for every id without a matching call, fails at the id 0:
  on a new connection the root session has no pending call, and a frame with id 0 is
  queued as an event without any exception.\<close>

theorem onMessage_id_zero_is_not_refused:
  "deref (CRConnection_new fresh_transport quiet_logger) 0 = Some fresh_root \<and>
   map_of (callbacks fresh_root) 0 = None \<and>
   resp_id (frame\<lparr>resp_id := Some 0\<rparr>) = Some 0 \<and>
   CRSession_onMessage (CRConnection_new fresh_transport quiet_logger) 0 (frame\<lparr>resp_id := Some 0\<rparr>) =
     (None, (CRConnection_new fresh_transport quiet_logger)\<lparr>microtasks := [EmitEvent 0 None None]\<rparr>)"
  by (simp add: model_defs fresh_root_def)

subsection \<open>C6\<close>

text \<open>C6: one detach notification has both effects. When a session is registered under
  \<open>params.sessionId\<close>, it is closed (its pending calls rejected, its table and its
  connection reference cleared, its disconnect queued) and removed from the registry; and
  whether or not one is registered, the same frame is then handed to the session
  registered under the frame's own \<open>sessionId\<close>, the root for a frame without one,
  looked up in the registry as the removal left it. When that lookup finds nothing, the
  frame is dropped without exception.\<close>

theorem detach_closes_and_forwards:
  assumes "resp_method message = Some ''Target.detachedFromTarget''"
    and "resp_id message \<noteq> Some (- 9999)"
    and "resp_params message = Some p"
  shows
    "(\<forall>r s. map_of (sessions w) (params_sessionId p) = Some r \<and> deref w r = Some s \<longrightarrow>
        (let w1 = w\<lparr>logger := (if isLogEnabled (logger w)
                                then (logger w)\<lparr>logged := logged (logger w) @ [RECV message]\<rparr>
                                else logger w),
                     sessions := AList.delete (params_sessionId p) (sessions w),
                     heap := (heap w)[r := s\<lparr>callbacks := [], connection := None\<rparr>],
                     settled := settled w @ target_closed_rejections s,
                     microtasks := microtasks w @ [EmitSessionDisconnected r]\<rparr>
         in CRConnection_onMessage w message =
              (case map_of (AList.delete (params_sessionId p) (sessions w))
                      (Some (case resp_sessionId message of None \<Rightarrow> [] | Some sid \<Rightarrow> sid)) of
                 None \<Rightarrow> (None, w1)
               | Some r' \<Rightarrow> CRSession_onMessage w1 r' message))) \<and>
     (map_of (sessions w) (params_sessionId p) = None \<longrightarrow>
        (let w0 = w\<lparr>logger := (if isLogEnabled (logger w)
                                then (logger w)\<lparr>logged := logged (logger w) @ [RECV message]\<rparr>
                                else logger w)\<rparr>
         in CRConnection_onMessage w message =
              (case map_of (sessions w)
                      (Some (case resp_sessionId message of None \<Rightarrow> [] | Some sid \<Rightarrow> sid)) of
                 None \<Rightarrow> (None, w0)
               | Some r' \<Rightarrow> CRSession_onMessage w0 r' message)))"
proof (intro conjI allI impI)
  fix r s
  assume h: "map_of (sessions w) (params_sessionId p) = Some r \<and> deref w r = Some s"
  then have reg: "map_of (sessions w) (params_sessionId p) = Some r"
    and d: "deref w r = Some s"
    by simp_all
  define w1 where "w1 = w\<lparr>logger := (if isLogEnabled (logger w)
                                then (logger w)\<lparr>logged := logged (logger w) @ [RECV message]\<rparr>
                                else logger w),
                     sessions := AList.delete (params_sessionId p) (sessions w),
                     heap := (heap w)[r := s\<lparr>callbacks := [], connection := None\<rparr>],
                     settled := settled w @ target_closed_rejections s,
                     microtasks := microtasks w @ [EmitSessionDisconnected r]\<rparr>"
  have d0: "deref (log (RECV message) w) r = Some s"
    using d by (simp add: log_frame)
  have same: "(CRSession_onClosed (log (RECV message) w) r)
      \<lparr>sessions := AList.delete (params_sessionId p) (sessions w)\<rparr> = w1"
    unfolding onClosed_eq [OF d0] log_frame
    by (cases "isLogEnabled (logger w)") (simp_all add: w1_def shut_def log_def)
  have "CRConnection_onMessage w message =
      (case map_of (AList.delete (params_sessionId p) (sessions w))
              (Some (or_empty (resp_sessionId message))) of
         None \<Rightarrow> (None, w1)
       | Some r' \<Rightarrow> CRSession_onMessage w1 r' message)"
    using onMessage_detached [OF assms reg] unfolding Let_def same by (simp add: w1_def)
  then have "CRConnection_onMessage w message =
      (case map_of (AList.delete (params_sessionId p) (sessions w))
              (Some (case resp_sessionId message of None \<Rightarrow> [] | Some sid \<Rightarrow> sid)) of
         None \<Rightarrow> (None, w1)
       | Some r' \<Rightarrow> CRSession_onMessage w1 r' message)"
    by (simp only: or_empty_eq)
  then show "let w1 = w\<lparr>logger := (if isLogEnabled (logger w)
                                then (logger w)\<lparr>logged := logged (logger w) @ [RECV message]\<rparr>
                                else logger w),
                     sessions := AList.delete (params_sessionId p) (sessions w),
                     heap := (heap w)[r := s\<lparr>callbacks := [], connection := None\<rparr>],
                     settled := settled w @ target_closed_rejections s,
                     microtasks := microtasks w @ [EmitSessionDisconnected r]\<rparr>
         in CRConnection_onMessage w message =
              (case map_of (AList.delete (params_sessionId p) (sessions w))
                      (Some (case resp_sessionId message of None \<Rightarrow> [] | Some sid \<Rightarrow> sid)) of
                 None \<Rightarrow> (None, w1)
               | Some r' \<Rightarrow> CRSession_onMessage w1 r' message)"
    unfolding Let_def w1_def .
next
  assume absent: "map_of (sessions w) (params_sessionId p) = None"
  define w0 where "w0 = w\<lparr>logger := (if isLogEnabled (logger w)
                                then (logger w)\<lparr>logged := logged (logger w) @ [RECV message]\<rparr>
                                else logger w)\<rparr>"
  have l: "log (RECV message) w = w0"
    by (cases "isLogEnabled (logger w)") (simp_all add: log_def w0_def)
  have s0: "sessions w0 = sessions w"
    by (simp add: w0_def)
  have "lifecycle w0 message = Inr w0"
    using assms(1,3) absent by (simp add: lifecycle_def s0)
  then have "CRConnection_onMessage w message =
      (case map_of (sessions w) (Some (or_empty (resp_sessionId message))) of
         None \<Rightarrow> (None, w0)
       | Some r' \<Rightarrow> CRSession_onMessage w0 r' message)"
    using assms(2) by (simp add: CRConnection_onMessage_def kBrowserCloseMessageId_def l s0)
  then have "CRConnection_onMessage w message =
      (case map_of (sessions w)
              (Some (case resp_sessionId message of None \<Rightarrow> [] | Some sid \<Rightarrow> sid)) of
         None \<Rightarrow> (None, w0)
       | Some r' \<Rightarrow> CRSession_onMessage w0 r' message)"
    by (simp only: or_empty_eq)
  then show "let w0 = w\<lparr>logger := (if isLogEnabled (logger w)
                                then (logger w)\<lparr>logged := logged (logger w) @ [RECV message]\<rparr>
                                else logger w)\<rparr>
         in CRConnection_onMessage w message =
              (case map_of (sessions w)
                      (Some (case resp_sessionId message of None \<Rightarrow> [] | Some sid \<Rightarrow> sid)) of
                 None \<Rightarrow> (None, w0)
               | Some r' \<Rightarrow> CRSession_onMessage w0 r' message)"
    unfolding Let_def w0_def .
qed

theorem detach_closes_and_forwards_witness:
  "CRConnection_onMessage (run fresh_connection nested)
       ((detached ''S2'')\<lparr>resp_sessionId := Some ''S1''\<rparr>) =
     (None, (run fresh_connection nested)
        \<lparr>sessions := [(Some [], 0), (Some ''S1'', 1)],
         heap := [fresh_root, page_s1, worker_s2\<lparr>callbacks := [], connection := None\<rparr>],
         settled :=
           [Reject 0 \<lparr>err_message = ''Protocol error (Runtime.enable): Target closed.'',
                      err_stack = ''caller 1''\<rparr>],
         microtasks := microtasks (run fresh_connection nested) @
           [EmitSessionDisconnected 2,
            EmitEvent 1 (Some ''Target.detachedFromTarget'')
              (Some \<lparr>params_sessionId = Some ''S2'', params_targetInfo = None, params_rest = []\<rparr>)]\<rparr>) \<and>
   CRConnection_onMessage (run fresh_connection nested)
       ((detached ''S9'')\<lparr>resp_sessionId := Some ''S1''\<rparr>) =
     (None, (run fresh_connection nested)
        \<lparr>microtasks := microtasks (run fresh_connection nested) @
           [EmitEvent 1 (Some ''Target.detachedFromTarget'')
              (Some \<lparr>params_sessionId = Some ''S9'', params_targetInfo = None, params_rest = []\<rparr>)]\<rparr>) \<and>
   CRConnection_onMessage (run fresh_connection nested)
       ((detached ''S1'')\<lparr>resp_sessionId := Some ''S1''\<rparr>) =
     (None, (run fresh_connection nested)
        \<lparr>sessions := [(Some [], 0), (Some ''S2'', 2)],
         heap := [fresh_root, page_s1\<lparr>callbacks := [], connection := None\<rparr>, worker_s2],
         microtasks := microtasks (run fresh_connection nested) @ [EmitSessionDisconnected 1]\<rparr>)"
proof -
  define w where "w = run fresh_connection nested"
  have f: "resp_method ((detached sid)\<lparr>resp_sessionId := Some ''S1''\<rparr>) =
        Some ''Target.detachedFromTarget''"
    "resp_id ((detached sid)\<lparr>resp_sessionId := Some ''S1''\<rparr>) \<noteq> Some (- 9999)"
    "resp_params ((detached sid)\<lparr>resp_sessionId := Some ''S1''\<rparr>) =
        Some \<lparr>params_sessionId = Some sid, params_targetInfo = None, params_rest = []\<rparr>"
    for sid
    by (simp_all add: detached_def frame_def)
  note t2 = detach_closes_and_forwards [OF f [of "''S2''"], where w = w, unfolded Let_def]
  note t9 = detach_closes_and_forwards [OF f [of "''S9''"], where w = w, unfolded Let_def]
  note t1 = detach_closes_and_forwards [OF f [of "''S1''"], where w = w, unfolded Let_def]
  have w: "w = \<lparr>lastId = 1,
      transport = \<lparr>sent =
        [\<lparr>req_id = 1, req_method = ''Runtime.enable'', req_params = None, req_sessionId = Some ''S2''\<rparr>],
        onmessage = True, onclose = True, closeCalls = 0\<rparr>,
      sessions = [(Some [], 0), (Some ''S1'', 1), (Some ''S2'', 2)],
      rootSession = 0, closed = False, logger = quiet_logger,
      heap = [fresh_root, page_s1, worker_s2],
      promises = 1, settled = [],
      microtasks =
        [EmitEvent 0 (Some ''Target.attachedToTarget'')
           (Some \<lparr>params_sessionId = Some ''S1'', params_targetInfo = Some \<lparr>ti_type = ''page''\<rparr>,
                  params_rest = []\<rparr>),
         EmitEvent 1 (Some ''Target.attachedToTarget'')
           (Some \<lparr>params_sessionId = Some ''S2'', params_targetInfo = Some \<lparr>ti_type = ''worker''\<rparr>,
                  params_rest = []\<rparr>)]\<rparr>"
    unfolding w_def by (rule nested_eval)
  have s2: "map_of (sessions w) (params_sessionId
        \<lparr>params_sessionId = Some ''S2'', params_targetInfo = None, params_rest = []\<rparr>) = Some 2 \<and>
      deref w 2 = Some worker_s2"
    by (simp add: w deref_def)
  have s1: "map_of (sessions w) (params_sessionId
        \<lparr>params_sessionId = Some ''S1'', params_targetInfo = None, params_rest = []\<rparr>) = Some 1 \<and>
      deref w 1 = Some page_s1"
    by (simp add: w deref_def)
  have s9: "map_of (sessions w) (params_sessionId
        \<lparr>params_sessionId = Some ''S9'', params_targetInfo = None, params_rest = []\<rparr>) = None"
    by (simp add: w)
  have a: "CRConnection_onMessage w ((detached ''S2'')\<lparr>resp_sessionId := Some ''S1''\<rparr>) =
     (None, w
        \<lparr>sessions := [(Some [], 0), (Some ''S1'', 1)],
         heap := [fresh_root, page_s1, worker_s2\<lparr>callbacks := [], connection := None\<rparr>],
         settled :=
           [Reject 0 \<lparr>err_message = ''Protocol error (Runtime.enable): Target closed.'',
                      err_stack = ''caller 1''\<rparr>],
         microtasks := microtasks w @
           [EmitSessionDisconnected 2,
            EmitEvent 1 (Some ''Target.detachedFromTarget'')
              (Some \<lparr>params_sessionId = Some ''S2'', params_targetInfo = None, params_rest = []\<rparr>)]\<rparr>)"
    unfolding t2 [THEN conjunct1, rule_format, OF s2]
    by (simp add: w model_defs page_s1_def worker_s2_def fresh_root_def
        target_closed_rejections_def)
  have b: "CRConnection_onMessage w ((detached ''S9'')\<lparr>resp_sessionId := Some ''S1''\<rparr>) =
     (None, w
        \<lparr>microtasks := microtasks w @
           [EmitEvent 1 (Some ''Target.detachedFromTarget'')
              (Some \<lparr>params_sessionId = Some ''S9'', params_targetInfo = None, params_rest = []\<rparr>)]\<rparr>)"
    unfolding t9 [THEN conjunct2, rule_format, OF s9]
    by (simp add: w model_defs page_s1_def worker_s2_def fresh_root_def)
  have c: "CRConnection_onMessage w ((detached ''S1'')\<lparr>resp_sessionId := Some ''S1''\<rparr>) =
     (None, w
        \<lparr>sessions := [(Some [], 0), (Some ''S2'', 2)],
         heap := [fresh_root, page_s1\<lparr>callbacks := [], connection := None\<rparr>, worker_s2],
         microtasks := microtasks w @ [EmitSessionDisconnected 1]\<rparr>)"
    unfolding t1 [THEN conjunct1, rule_format, OF s1]
    by (simp add: w model_defs page_s1_def worker_s2_def fresh_root_def
        target_closed_rejections_def)
  show ?thesis
    unfolding w_def [symmetric] using a b c by simp
qed

subsection \<open>C7\<close>

text \<open>C7: a frame whose id is \<open>-9999\<close> is discarded whatever its other fields are:
  no exception, no registry change, no session created or closed, no call settled. The
  state is the one before, but for the trace line that the logger takes when logging is
  enabled.\<close>

theorem sentinel_frame_discarded:
  assumes "resp_id message = Some (- 9999)"
  shows "CRConnection_onMessage w message =
           (None, if isLogEnabled (logger w)
                  then w\<lparr>logger := (logger w)\<lparr>logged := logged (logger w) @ [RECV message]\<rparr>\<rparr>
                  else w)"
  using assms
  by (simp add: CRConnection_onMessage_def kBrowserCloseMessageId_def log_def)

theorem sentinel_frame_discarded_witness:
  "CRConnection_onMessage (CRConnection_new fresh_transport quiet_logger)
     ((attached ''S1'' ''page'')\<lparr>resp_id := Some (- 9999)\<rparr>) =
     (None, CRConnection_new fresh_transport quiet_logger)"
proof -
  have i: "resp_id ((attached ''S1'' ''page'')\<lparr>resp_id := Some (- 9999)\<rparr>) = Some (- 9999)"
    by simp
  have q: "\<not> isLogEnabled (logger (CRConnection_new fresh_transport quiet_logger))"
    by (simp add: CRConnection_new_def quiet_logger_def)
  show ?thesis
    using sentinel_frame_discarded [OF i, of "CRConnection_new fresh_transport quiet_logger"] q
    by simp
qed

subsection \<open>C8\<close>

text \<open>C8 (as amended): \<open>close()\<close> requests transport closure whenever the closed flag
  is not set. \<open>close()\<close> does not set the flag, and neither does any action but the
  transport's close callback, so \<open>n\<close> calls on an open connection make \<open>n\<close>
  requests. Once the transport-close handler has run, \<open>close()\<close> changes nothing,
  however often it is called.\<close>

theorem close_requests_while_open:
  "closed (CRConnection_close w) = closed w \<and>
   (TransportClosed \<notin> set as \<longrightarrow> closed (run w as) = closed w) \<and>
   (\<not> closed w \<longrightarrow>
      closeCalls (transport ((CRConnection_close ^^ n) w)) = closeCalls (transport w) + n) \<and>
   (closed w \<longrightarrow> (CRConnection_close ^^ n) w = w) \<and>
   (CRConnection_close ^^ n) (CRConnection_onClose w) = CRConnection_onClose w"
proof (intro conjI impI)
  show "closed (CRConnection_close w) = closed w"
    by (simp add: CRConnection_close_def)
  show "closed (run w as) = closed w" if "TransportClosed \<notin> set as"
    using that by (rule run_closed)
  show "closeCalls (transport ((CRConnection_close ^^ n) w)) = closeCalls (transport w) + n"
    if "\<not> closed w"
    using that by (simp add: close_pow_open)
  show "(CRConnection_close ^^ n) w = w" if "closed w"
    using that by (rule close_pow_closed)
  have "closed (CRConnection_onClose w)"
    by (rule onClose_closed)
  then show "(CRConnection_close ^^ n) (CRConnection_onClose w) = CRConnection_onClose w"
    by (rule close_pow_closed)
qed

theorem close_requests_while_open_witness:
  "closeCalls (transport ((CRConnection_close ^^ 3) (CRConnection_new fresh_transport quiet_logger))) = 3 \<and>
   (CRConnection_close ^^ 3) (CRConnection_onClose (CRConnection_new fresh_transport quiet_logger)) =
     CRConnection_onClose (CRConnection_new fresh_transport quiet_logger)"
  using close_requests_while_open [of "CRConnection_new fresh_transport quiet_logger" "[]" 3]
  by (simp add: CRConnection_new_def fresh_transport_def)

text \<open>The claim as written, at most one request however often \<open>close()\<close> is called,
  fails on a new connection: two calls before the transport has reported closure call
  \<open>transport.close()\<close> twice.\<close>

theorem close_twice_requests_twice:
  "closeCalls (transport (CRConnection_new fresh_transport quiet_logger)) = 0 \<and>
   closeCalls (transport (CRConnection_close (CRConnection_new fresh_transport quiet_logger))) = 1 \<and>
   closeCalls (transport
     (CRConnection_close (CRConnection_close (CRConnection_new fresh_transport quiet_logger)))) = 2"
  by (simp add: CRConnection_close_def CRConnection_new_def fresh_transport_def)

subsection \<open>C9\<close>

text \<open>C9 (as amended): the root session stays registered under \<open>""\<close> through every
  sequence of actions that contains neither the transport's close callback nor the
  delivery of an attach or detach notification whose \<open>params.sessionId\<close> is \<open>""\<close>:
  looking up \<open>""\<close> afterwards yields the root session made by the constructor.\<close>

theorem root_session_stays_registered:
  assumes "list_all keeps_root as"
  shows "session (run (CRConnection_new t lg) as) [] =
           Some (rootSession (run (CRConnection_new t lg) as)) \<and>
         rootSession (run (CRConnection_new t lg) as) = rootSession (CRConnection_new t lg)"
  using run_root [OF assms, of "CRConnection_new t lg"]
  by (simp add: session_def) (simp add: CRConnection_new_def)

theorem root_session_stays_registered_witness:
  "session (run (CRConnection_new fresh_transport quiet_logger) attach_detach) [] = Some 0 \<and>
   session (run (CRConnection_new fresh_transport quiet_logger) attach_detach) ''S1'' = None"
proof -
  have k: "list_all keeps_root attach_detach"
    by (simp add: attach_detach_def two_pending_def names_root_def attached_def detached_def frame_def)
  have s: "sessions (run fresh_connection attach_detach) = [(Some [], 0)]"
    by (simp add: attach_detach_def two_pending_def fresh_connection_def run_def model_defs)
  show ?thesis
    using root_session_stays_registered [OF k, of fresh_transport quiet_logger] s
    by (simp add: session_def fresh_connection_def)
qed

text \<open>The claim as written, for every sequence of inbound frames, fails at a detach
  notification whose \<open>params.sessionId\<close> is \<open>""\<close>: the root is closed and removed
  from the registry while the connection is still open and its hooks are still
  installed.\<close>

theorem detach_of_root_unregisters_it:
  "session (CRConnection_new fresh_transport quiet_logger) [] = Some 0 \<and>
   session (run (CRConnection_new fresh_transport quiet_logger) [Deliver (detached [])]) [] = None \<and>
   \<not> closed (run (CRConnection_new fresh_transport quiet_logger) [Deliver (detached [])]) \<and>
   onmessage (transport (run (CRConnection_new fresh_transport quiet_logger) [Deliver (detached [])]))"
  by (simp add: session_def run_def model_defs)

subsection \<open>C10\<close>

text \<open>C10: in a running connection every id that \<open>_rawSend\<close> returns is at least 1
  and no pending call is keyed by 0; \<open>_onMessage\<close> of a session does with a frame of
  id 0 exactly what it does with the same frame without id: no exception, and the event
  is queued for emission.\<close>

theorem id_zero_is_no_id:
  "let w = run (CRConnection_new t lg) as
   in (\<forall>sessionId' method ps. 1 \<le> fst (CRConnection_rawSend w sessionId' method ps)) \<and>
      (\<forall>r s. deref w r = Some s \<longrightarrow>
         map_of (callbacks s) 0 = None \<and> (\<forall>k \<in> fst ` set (callbacks s). 1 \<le> k)) \<and>
      (\<forall>r object.
         CRSession_onMessage w r (object\<lparr>resp_id := Some 0\<rparr>) =
         CRSession_onMessage w r (object\<lparr>resp_id := None\<rparr>)) \<and>
      (\<forall>r s object. deref w r = Some s \<longrightarrow>
         CRSession_onMessage w r (object\<lparr>resp_id := Some 0\<rparr>) =
           (None, w\<lparr>microtasks := microtasks w @
              [EmitEvent r (resp_method object) (resp_params object)]\<rparr>))"
proof -
  define w where "w = run (CRConnection_new t lg) as"
  have ok: "keys_ok w"
    unfolding w_def by (rule keys_ok_run [OF keys_ok_new])
  have a: "1 \<le> fst (CRConnection_rawSend w sessionId' m ps)" for sessionId' m ps
    using ok increment_pos [of "lastId w"] by (simp add: rawSend_eq keys_ok_def)
  have b: "map_of (callbacks s) 0 = None \<and> (\<forall>k \<in> fst ` set (callbacks s). 1 \<le> k)"
    if "deref w r = Some s" for r s
  proof -
    have sub: "fst ` set (callbacks s) \<subseteq> {1..lastId w}"
      using ok that by (rule keys_ok_deref)
    then have "0 \<notin> fst ` set (callbacks s)" by auto
    then have "map_of (callbacks s) 0 = None"
      by (simp add: map_of_eq_None_iff)
    with sub show ?thesis by auto
  qed
  have c: "CRSession_onMessage w r (object\<lparr>resp_id := Some 0\<rparr>) =
         CRSession_onMessage w r (object\<lparr>resp_id := None\<rparr>)" for r object
    by (simp add: CRSession_onMessage_def pending_call_def cong: option.case_cong)
  have d: "CRSession_onMessage w r (object\<lparr>resp_id := Some 0\<rparr>) =
           (None, w\<lparr>microtasks := microtasks w @
              [EmitEvent r (resp_method object) (resp_params object)]\<rparr>)"
    if "deref w r = Some s" for r s object
    using onMessage_event [OF that, of "object\<lparr>resp_id := Some 0\<rparr>"] by simp
  show ?thesis
    unfolding w_def [symmetric] Let_def
    using a b c d by blast
qed

theorem id_zero_is_no_id_witness:
  "1 \<le> fst (CRConnection_rawSend (run (CRConnection_new fresh_transport quiet_logger) two_pending)
        (Some ''S1'') ''Page.reload'' None) \<and>
   map_of (callbacks page1) 0 = None \<and>
   CRSession_onMessage (run (CRConnection_new fresh_transport quiet_logger) two_pending) 1
       (frame\<lparr>resp_id := Some 0\<rparr>) =
     CRSession_onMessage (run (CRConnection_new fresh_transport quiet_logger) two_pending) 1
       (frame\<lparr>resp_id := None\<rparr>) \<and>
   CRSession_onMessage (run (CRConnection_new fresh_transport quiet_logger) two_pending) 1
       (frame\<lparr>resp_id := Some 0\<rparr>) =
     (None, (run (CRConnection_new fresh_transport quiet_logger) two_pending)\<lparr>microtasks :=
        microtasks (run (CRConnection_new fresh_transport quiet_logger) two_pending) @
          [EmitEvent 1 None None]\<rparr>)"
proof -
  define w where "w = run (CRConnection_new fresh_transport quiet_logger) two_pending"
  have w: "w = run fresh_connection two_pending" by (simp add: w_def fresh_connection_def)
  have d: "deref w 1 = Some page1"
    by (simp add: w two_pending_eval deref_def)
  have f: "resp_method frame = None" "resp_params frame = None"
    by (simp_all add: frame_def)
  have c: "map_of (callbacks page1) 0 = None"
    by (simp add: page1_def)
  note all = id_zero_is_no_id [of fresh_transport quiet_logger two_pending,
      unfolded Let_def, folded w_def]
  from all have a: "1 \<le> fst (CRConnection_rawSend w (Some ''S1'') ''Page.reload'' None)"
    by blast
  from all have b: "CRSession_onMessage w 1 (frame\<lparr>resp_id := Some 0\<rparr>) =
      CRSession_onMessage w 1 (frame\<lparr>resp_id := None\<rparr>)"
    by blast
  from all d have e: "CRSession_onMessage w 1 (frame\<lparr>resp_id := Some 0\<rparr>) =
      (None, w\<lparr>microtasks := microtasks w @
         [EmitEvent 1 (resp_method frame) (resp_params frame)]\<rparr>)"
    by blast
  show ?thesis
    unfolding w_def [symmetric]
    using a b c e f by simp
qed

end
